theory Spec2Isabelle
  imports Main
begin

section \<open>Strings\<close>

text \<open>
  JavaScript strings are modelled as \<^typ>\<open>string\<close>, restricted to ASCII text: the
  whitespace class of \<^verbatim>\<open>\s\<close>, \<^verbatim>\<open>trim\<close> and \<^verbatim>\<open>trimEnd\<close> is its ASCII part (tab,
  line feed, vertical tab, form feed, carriage return, space), and the case mappings
  act on the letters a-z and A-Z only.
\<close>

abbreviation LF :: char where "LF \<equiv> CHR 0x0A"
abbreviation TAB :: char where "TAB \<equiv> CHR 0x09"
abbreviation SP :: char where "SP \<equiv> CHR 0x20"

definition isWhitespace :: "char \<Rightarrow> bool" where
  "isWhitespace c \<longleftrightarrow> c \<in> set [TAB, LF, CHR 0x0B, CHR 0x0C, CHR 0x0D, SP]"

definition lowerLetters :: string where
  "lowerLetters = ''abcdefghijklmnopqrstuvwxyz''"

definition upperLetters :: string where
  "upperLetters = ''ABCDEFGHIJKLMNOPQRSTUVWXYZ''"

definition toUpperChar :: "char \<Rightarrow> char" where
  "toUpperChar c = (case map_of (zip lowerLetters upperLetters) c of Some u \<Rightarrow> u | None \<Rightarrow> c)"

definition toLowerChar :: "char \<Rightarrow> char" where
  "toLowerChar c = (case map_of (zip upperLetters lowerLetters) c of Some l \<Rightarrow> l | None \<Rightarrow> c)"

definition toUpperCase :: "string \<Rightarrow> string" where
  "toUpperCase s = map toUpperChar s"

definition toLowerCase :: "string \<Rightarrow> string" where
  "toLowerCase s = map toLowerChar s"

definition trimStart :: "string \<Rightarrow> string" where
  "trimStart s = dropWhile isWhitespace s"

definition trimEnd :: "string \<Rightarrow> string" where
  "trimEnd s = rev (dropWhile isWhitespace (rev s))"

definition trim :: "string \<Rightarrow> string" where
  "trim s = trimStart (trimEnd s)"

definition endsWith :: "string \<Rightarrow> char \<Rightarrow> bool" where
  "endsWith s c \<longleftrightarrow> s \<noteq> [] \<and> last s = c"

definition repeat :: "string \<Rightarrow> nat \<Rightarrow> string" where
  "repeat s n = concat (replicate n s)"

text \<open>The string with every whitespace character removed (the measure of the content
  preservation property).\<close>

definition stripWhitespace :: "string \<Rightarrow> string" where
  "stripWhitespace s = filter (\<lambda>c. \<not> isWhitespace c) s"

text \<open>
  Modelled from the spec: \<^verbatim>\<open>trimSpacesEnd\<close> of \<^verbatim>\<open>../utils\<close>, which is not among the
  sources. The spec says it trims the trailing spaces of the output.
\<close>

definition trimSpacesEnd :: "string \<Rightarrow> string" where
  "trimSpacesEnd s = rev (dropWhile (\<lambda>c. c = SP) (rev s))"


section \<open>Tokens\<close>

text \<open>
  Modelled from the spec: the token types of \<^verbatim>\<open>./tokenTypes\<close> and the token record of
  \<^verbatim>\<open>./token\<close>, neither among the sources. The fields \<open>type\<close> and \<open>value\<close> are named
  \<open>ttype\<close> and \<open>tvalue\<close>. The engine reads \<^verbatim>\<open>whitespaceBefore\<close> with \<^verbatim>\<open>?.\<close>, so it may
  be missing; \<open>key\<close> is present on placeholders only.
\<close>

datatype tokenType =
    WHITESPACE | WORD | STRING | RESERVED | RESERVED_TOP_LEVEL
  | RESERVED_TOP_LEVEL_NO_INDENT | RESERVED_NEWLINE | OPERATOR | OPEN_PAREN
  | CLOSE_PAREN | LINE_COMMENT | BLOCK_COMMENT | PLACEHOLDER | NUMBER | PUNCTUATION

record token =
  ttype :: tokenType
  tvalue :: string
  whitespaceBefore :: "string option"
  key :: "string option"

text \<open>
  Modelled from the spec: the predicates \<^verbatim>\<open>isAnd\<close>, \<^verbatim>\<open>isBetween\<close> and \<^verbatim>\<open>isLimit\<close> of
  \<^verbatim>\<open>./token\<close>. The spec says "the token is AND", "is BETWEEN", "is LIMIT", and that
  keywords match case-insensitively. A missing token (a look-behind before the first
  token, the empty initial latch) is none of them.
\<close>

definition isAnd :: "token option \<Rightarrow> bool" where
  "isAnd t = (case t of None \<Rightarrow> False | Some k \<Rightarrow> toUpperCase (tvalue k) = ''AND'')"

definition isBetween :: "token option \<Rightarrow> bool" where
  "isBetween t = (case t of None \<Rightarrow> False | Some k \<Rightarrow> toUpperCase (tvalue k) = ''BETWEEN'')"

definition isLimit :: "token option \<Rightarrow> bool" where
  "isLimit t = (case t of None \<Rightarrow> False | Some k \<Rightarrow> toUpperCase (tvalue k) = ''LIMIT'')"


section \<open>Errors\<close>

text \<open>
  The error kinds of the spec; the two failures of the JavaScript runtime that the
  code can reach, \<^verbatim>\<open>String.prototype.repeat\<close> with a negative count and \<^verbatim>\<open>new\<close> on
  an undefined formatter class; and the error of the base class, whose \<^verbatim>\<open>tokenizer()\<close>
  is not implemented.
\<close>

datatype error =
    InvalidQueryArgument
  | UnsupportedDialect string
  | InvalidNewline
  | TokenizerStuck nat
  | MissingParameter "string + nat"
  | RangeError
  | NotAConstructor
  | NotImplemented


section \<open>Configuration\<close>

text \<open>
  Modelled from the spec: the enumerations \<^verbatim>\<open>KeywordMode\<close>, \<^verbatim>\<open>NewlineMode\<close>,
  \<^verbatim>\<open>AliasMode\<close> and \<^verbatim>\<open>CommaPosition\<close> of \<^verbatim>\<open>./types\<close>, not among the sources, with
  the values the spec lists for each option. The newline mode \<^verbatim>\<open>lineWidth\<close> is named
  \<open>lineWidthMode\<close>, and the alias modes carry the prefix \<open>alias\<close>.
\<close>

datatype KeywordMode = standard | tenSpaceLeft | tenSpaceRight
datatype NewlineMode = always | never | lineWidthMode
datatype AliasMode = aliasAlways | aliasNever | aliasSelect | aliasExplicit
datatype CommaPosition = before | after | tabular

text \<open>The \<^verbatim>\<open>newline\<close> option: a mode or a number.\<close>

datatype NewlineOption = Mode NewlineMode | Num int

text \<open>The \<^verbatim>\<open>params\<close> option: an ordered list or a mapping from key to value.\<close>

datatype ParamItems = Positional "string list" | Named "(string \<times> string) list"

record ParenOptions =
  openParenNewline :: bool
  closeParenNewline :: bool

text \<open>
  The options as the formatter receives them. \<^verbatim>\<open>format\<close> casts the merged object to
  \<^verbatim>\<open>FormatOptions\<close>, and the merge can leave \<^verbatim>\<open>lineWidth\<close> undefined (\<open>None\<close>);
  \<^verbatim>\<open>params\<close> is optional in the interface. \<^verbatim>\<open>trailingNewline\<close> is not declared in the
  interface but read by the engine (a missing property is falsy).
\<close>

record FormatOptions =
  language :: string
  indent :: string
  uppercase :: bool
  keywordPosition :: KeywordMode
  newline :: NewlineOption
  breakBeforeBooleanOperator :: bool
  aliasAs :: AliasMode
  tabulateAlias :: bool
  commaPosition :: CommaPosition
  parenOptions :: ParenOptions
  lineWidth :: "int option"
  linesBetweenQueries :: int
  denseOperators :: bool
  semicolonNewline :: bool
  params :: "ParamItems option"
  trailingNewline :: bool


section \<open>Indentation\<close>

text \<open>
  Modelled from the spec: the class \<^verbatim>\<open>Indentation\<close>, not among the sources. A stack of
  frames tagged top-level or block (the head of the list is the top of the stack); the
  indent is the indent unit repeated by the depth; a pop of the empty stack is a no-op.
\<close>

datatype indentType = TOP_LEVEL | BLOCK

type_synonym Indentation = "indentType list"

definition getIndent :: "string \<Rightarrow> Indentation \<Rightarrow> string" where
  "getIndent unit ind = repeat unit (length ind)"

definition increaseTopLevel :: "Indentation \<Rightarrow> Indentation" where
  "increaseTopLevel ind = TOP_LEVEL # ind"

definition increaseBlockLevel :: "Indentation \<Rightarrow> Indentation" where
  "increaseBlockLevel ind = BLOCK # ind"

definition decreaseTopLevel :: "Indentation \<Rightarrow> Indentation" where
  "decreaseTopLevel ind = (case ind of TOP_LEVEL # rest \<Rightarrow> rest | _ \<Rightarrow> ind)"

definition decreaseBlockLevel :: "Indentation \<Rightarrow> Indentation" where
  "decreaseBlockLevel ind = (case ind of [] \<Rightarrow> [] | _ # rest \<Rightarrow> rest)"

definition resetIndentation :: "Indentation \<Rightarrow> Indentation" where
  "resetIndentation ind = []"


section \<open>Inline blocks\<close>

text \<open>
  Modelled from the spec: the class \<^verbatim>\<open>InlineBlock\<close>, not among the sources. The state
  is the level. At an opening parenthesis the detector scans from that token on, summing
  the lengths of the values, until the matching closing parenthesis (activate), or the
  sum exceeds \<open>lineWidth - 2\<close>, or a top-level reserved word or the end of the stream
  is met (do not activate). With an undefined line width the comparison with the budget
  is never true. The method \<^verbatim>\<open>end\<close> is named \<open>endInline\<close>.
\<close>

definition overBudget :: "int option \<Rightarrow> int \<Rightarrow> bool" where
  "overBudget lw len = (case lw of None \<Rightarrow> False | Some w \<Rightarrow> len > w - 2)"

fun scanInline :: "int option \<Rightarrow> token list \<Rightarrow> int \<Rightarrow> nat \<Rightarrow> bool" where
  "scanInline lw [] len lvl = False"
| "scanInline lw (t # ts) len lvl =
     (let len' = len + int (length (tvalue t)) in
      if overBudget lw len' then False
      else if ttype t = OPEN_PAREN then scanInline lw ts len' (Suc lvl)
      else if ttype t = CLOSE_PAREN then
        (if lvl \<le> 1 then True else scanInline lw ts len' (lvl - 1))
      else if ttype t = RESERVED_TOP_LEVEL \<or> ttype t = RESERVED_TOP_LEVEL_NO_INDENT then False
      else scanInline lw ts len' lvl)"

definition isInlineBlock :: "int option \<Rightarrow> token list \<Rightarrow> nat \<Rightarrow> bool" where
  "isInlineBlock lw toks i = scanInline lw (drop i toks) 0 0"

definition beginIfPossible :: "int option \<Rightarrow> nat \<Rightarrow> token list \<Rightarrow> nat \<Rightarrow> nat" where
  "beginIfPossible lw level toks i =
     (if level = 0 then (if isInlineBlock lw toks i then 1 else 0) else level + 1)"

definition isActive :: "nat \<Rightarrow> bool" where
  "isActive level \<longleftrightarrow> level > 0"

definition endInline :: "nat \<Rightarrow> nat" where
  "endInline level = level - 1"


section \<open>Parameters\<close>

text \<open>
  Modelled from the spec: the class \<^verbatim>\<open>Params\<close>, not among the sources. With no params
  configured the placeholder's own value is returned. Otherwise a placeholder with a key
  is looked up in the mapping, and one without takes the next positional entry; a
  missing entry is the error \<open>MissingParameter\<close>. The state is the positional cursor.
\<close>

definition params_get :: "ParamItems option \<Rightarrow> nat \<Rightarrow> token \<Rightarrow> error + string \<times> nat" where
  "params_get ps cursor t =
     (case ps of
        None \<Rightarrow> Inr (tvalue t, cursor)
      | Some items \<Rightarrow>
          (case key t of
             Some k \<Rightarrow>
               (case items of
                  Named m \<Rightarrow>
                    (case map_of m k of
                       Some v \<Rightarrow> Inr (v, cursor)
                     | None \<Rightarrow> Inl (MissingParameter (Inl k)))
                | Positional xs \<Rightarrow> Inl (MissingParameter (Inl k)))
           | None \<Rightarrow>
               (case items of
                  Positional xs \<Rightarrow>
                    (if cursor < length xs then Inr (xs ! cursor, Suc cursor)
                     else Inl (MissingParameter (Inr cursor)))
                | Named m \<Rightarrow> Inl (MissingParameter (Inr cursor)))))"


section \<open>The formatter engine\<close>

text \<open>
  What a dialect's subclass of \<^verbatim>\<open>Formatter\<close> supplies: its tokenizer (the base class
  has none) and its token override (the identity in the base class). A tokenizer either
  fails or returns the token stream.
\<close>

record dialect =
  tokenizer :: "string \<Rightarrow> error + token list"
  tokenOverride :: "token \<Rightarrow> token"

text \<open>
  The mutable fields of a \<^verbatim>\<open>Formatter\<close>: the indentation stack, the level of the inline
  block, the cursor of the params, and the latch of the previous reserved token (the
  empty object at first, here \<open>None\<close>). The configuration, the token stream and the
  index of the current token are arguments of the functions below.
\<close>

record FormatterState =
  indentation :: Indentation
  inlineBlock :: nat
  paramsIndex :: nat
  previousReservedToken :: "token option"

definition initialState :: FormatterState where
  "initialState =
     \<lparr>indentation = [], inlineBlock = 0, paramsIndex = 0, previousReservedToken = None\<rparr>"

definition tokenLookBehind :: "token list \<Rightarrow> nat \<Rightarrow> nat \<Rightarrow> token option" where
  "tokenLookBehind toks i n =
     (if n \<le> i \<and> i - n < length toks then Some (toks ! (i - n)) else None)"

definition tokenLookAhead :: "token list \<Rightarrow> nat \<Rightarrow> nat \<Rightarrow> token option" where
  "tokenLookAhead toks i n =
     (if i + n < length toks then Some (toks ! (i + n)) else None)"

definition caseRendered :: "tokenType \<Rightarrow> bool" where
  "caseRendered ty \<longleftrightarrow>
     ty = RESERVED \<or> ty = RESERVED_TOP_LEVEL \<or> ty = RESERVED_TOP_LEVEL_NO_INDENT \<or>
     ty = RESERVED_NEWLINE \<or> ty = OPEN_PAREN \<or> ty = CLOSE_PAREN"

text \<open>\<^verbatim>\<open>show\<close>: converts a token to a string, in upper or lower case if it is a
  reserved word or a parenthesis.\<close>

definition showToken :: "FormatOptions \<Rightarrow> token \<Rightarrow> string" where
  "showToken cfg t =
     (if caseRendered (ttype t)
      then (if uppercase cfg then toUpperCase (tvalue t) else toLowerCase (tvalue t))
      else tvalue t)"

definition addNewline :: "FormatOptions \<Rightarrow> FormatterState \<Rightarrow> string \<Rightarrow> string" where
  "addNewline cfg st query =
     (let q = trimSpacesEnd query;
          q' = (if \<not> endsWith q LF then q @ [LF] else q)
      in q' @ getIndent (indent cfg) (indentation st))"

text \<open>\<^verbatim>\<open>string.replace(/\s+/gu, ' ')\<close>: every maximal run of whitespace becomes one
  space.\<close>

function equalizeWhitespace :: "string \<Rightarrow> string" where
  "equalizeWhitespace [] = []"
| "equalizeWhitespace (c # cs) =
     (if isWhitespace c then SP # equalizeWhitespace (dropWhile isWhitespace cs)
      else c # equalizeWhitespace cs)"
  by pat_completeness auto
termination
  by (relation "measure length") (auto simp: length_dropWhile_le le_imp_less_Suc)

text \<open>
  \<^verbatim>\<open>comment.replace(/\n[ \t]*/gu, r)\<close>: every line feed, with the spaces and tabs after
  it, becomes \<open>r\<close>. The replacement text is taken literally, which is what JavaScript
  does when it holds no dollar sign.
\<close>

function replaceLineStarts :: "string \<Rightarrow> string \<Rightarrow> string" where
  "replaceLineStarts r [] = []"
| "replaceLineStarts r (c # cs) =
     (if c = LF then r @ replaceLineStarts r (dropWhile (\<lambda>x. x = SP \<or> x = TAB) cs)
      else c # replaceLineStarts r cs)"
  by pat_completeness auto
termination
  by (relation "measure (\<lambda>(r, s). length s)") (auto simp: length_dropWhile_le le_imp_less_Suc)

definition indentComment :: "FormatOptions \<Rightarrow> FormatterState \<Rightarrow> string \<Rightarrow> string" where
  "indentComment cfg st comment =
     replaceLineStarts (LF # getIndent (indent cfg) (indentation st) @ [SP]) comment"

datatype preserve = PreserveBefore | PreserveAfter | PreserveBoth

definition formatWithSpaces :: "FormatOptions \<Rightarrow> token \<Rightarrow> string \<Rightarrow> preserve \<Rightarrow> string" where
  "formatWithSpaces cfg t query p =
     (let before = (if p = PreserveAfter then trimSpacesEnd query else query);
          after = (if p = PreserveBefore then [] else [SP])
      in before @ showToken cfg t @ after)"

definition formatWithoutSpaces :: "FormatOptions \<Rightarrow> token \<Rightarrow> string \<Rightarrow> string" where
  "formatWithoutSpaces cfg t query = trimSpacesEnd query @ showToken cfg t"

definition formatLineComment :: "FormatOptions \<Rightarrow> FormatterState \<Rightarrow> token \<Rightarrow> string \<Rightarrow> string" where
  "formatLineComment cfg st t query = addNewline cfg st (query @ showToken cfg t)"

definition formatBlockComment :: "FormatOptions \<Rightarrow> FormatterState \<Rightarrow> token \<Rightarrow> string \<Rightarrow> string" where
  "formatBlockComment cfg st t query =
     addNewline cfg st (addNewline cfg st query @ indentComment cfg st (tvalue t))"

definition formatTopLevelReservedWordNoIndent ::
  "FormatOptions \<Rightarrow> FormatterState \<Rightarrow> token \<Rightarrow> string \<Rightarrow> FormatterState \<times> string" where
  "formatTopLevelReservedWordNoIndent cfg st t query =
     (let st1 = st\<lparr>indentation := decreaseTopLevel (indentation st)\<rparr>;
          q1 = addNewline cfg st1 query @ equalizeWhitespace (showToken cfg t)
      in (st1, addNewline cfg st1 q1))"

definition formatTopLevelReservedWord ::
  "FormatOptions \<Rightarrow> FormatterState \<Rightarrow> token \<Rightarrow> string \<Rightarrow> FormatterState \<times> string" where
  "formatTopLevelReservedWord cfg st t query =
     (let st1 = st\<lparr>indentation := decreaseTopLevel (indentation st)\<rparr>;
          q1 = addNewline cfg st1 query;
          st2 = st1\<lparr>indentation := increaseTopLevel (indentation st1)\<rparr>;
          q2 = q1 @ equalizeWhitespace (showToken cfg t)
      in (st2, addNewline cfg st2 q2))"

definition formatNewlineReservedWord ::
  "FormatOptions \<Rightarrow> FormatterState \<Rightarrow> token list \<Rightarrow> nat \<Rightarrow> token \<Rightarrow> string \<Rightarrow> string" where
  "formatNewlineReservedWord cfg st toks i t query =
     (if isAnd (Some t) \<and> isBetween (tokenLookBehind toks i 2)
      then formatWithSpaces cfg t query PreserveBoth
      else addNewline cfg st query @ equalizeWhitespace (showToken cfg t) @ [SP])"

definition preserveWhitespaceFor :: "tokenType option \<Rightarrow> bool" where
  "preserveWhitespaceFor ty \<longleftrightarrow>
     ty = Some OPEN_PAREN \<or> ty = Some LINE_COMMENT \<or> ty = Some OPERATOR"

definition formatOpeningParentheses ::
  "FormatOptions \<Rightarrow> FormatterState \<Rightarrow> token list \<Rightarrow> nat \<Rightarrow> token \<Rightarrow> string
     \<Rightarrow> FormatterState \<times> string" where
  "formatOpeningParentheses cfg st toks i t query =
     (let q1 = (if (case whitespaceBefore t of None \<Rightarrow> False | Some w \<Rightarrow> length w = 0) \<and>
                   \<not> preserveWhitespaceFor (map_option ttype (tokenLookBehind toks i 1))
                then trimSpacesEnd query else query);
          q2 = q1 @ showToken cfg t;
          st1 = st\<lparr>inlineBlock := beginIfPossible (lineWidth cfg) (inlineBlock st) toks i\<rparr>
      in if \<not> isActive (inlineBlock st1)
         then (let st2 = st1\<lparr>indentation := increaseBlockLevel (indentation st1)\<rparr>
               in (st2, addNewline cfg st2 q2))
         else (st1, q2))"

definition formatClosingParentheses ::
  "FormatOptions \<Rightarrow> FormatterState \<Rightarrow> token \<Rightarrow> string \<Rightarrow> FormatterState \<times> string" where
  "formatClosingParentheses cfg st t query =
     (if isActive (inlineBlock st)
      then (st\<lparr>inlineBlock := endInline (inlineBlock st)\<rparr>,
            formatWithSpaces cfg t query PreserveAfter)
      else (let st1 = st\<lparr>indentation := decreaseBlockLevel (indentation st)\<rparr>
            in (st1, formatWithSpaces cfg t (addNewline cfg st1 query) PreserveBoth)))"

definition formatPlaceholder ::
  "FormatOptions \<Rightarrow> FormatterState \<Rightarrow> token \<Rightarrow> string \<Rightarrow> error + FormatterState \<times> string" where
  "formatPlaceholder cfg st t query =
     (case params_get (params cfg) (paramsIndex st) t of
        Inl e \<Rightarrow> Inl e
      | Inr (v, cursor) \<Rightarrow> Inr (st\<lparr>paramsIndex := cursor\<rparr>, query @ v @ [SP]))"

definition formatComma :: "FormatOptions \<Rightarrow> FormatterState \<Rightarrow> token \<Rightarrow> string \<Rightarrow> string" where
  "formatComma cfg st t query =
     (let q = trimSpacesEnd query @ showToken cfg t @ [SP]
      in if isActive (inlineBlock st) then q
         else if isLimit (previousReservedToken st) then q
         else addNewline cfg st q)"

text \<open>
  \<^verbatim>\<open>'\n'.repeat(this.cfg.linesBetweenQueries || 1)\<close>: a count of zero is falsy and
  becomes one; a negative count makes \<^verbatim>\<open>repeat\<close> throw.
\<close>

definition formatQuerySeparator ::
  "FormatOptions \<Rightarrow> FormatterState \<Rightarrow> token \<Rightarrow> string \<Rightarrow> error + FormatterState \<times> string" where
  "formatQuerySeparator cfg st t query =
     (let st1 = st\<lparr>indentation := resetIndentation (indentation st)\<rparr>;
          count = (if linesBetweenQueries cfg = 0 then 1 else linesBetweenQueries cfg)
      in if count < 0 then Inl RangeError
         else Inr (st1, trimSpacesEnd query @ showToken cfg t @ repeat [LF] (nat count)))"

definition latch :: "token \<Rightarrow> FormatterState \<times> string \<Rightarrow> FormatterState \<times> string" where
  "latch t r = ((fst r)\<lparr>previousReservedToken := Some t\<rparr>, snd r)"

text \<open>The body of the loop of \<^verbatim>\<open>getFormattedQueryFromTokens\<close> for the token \<open>tok\<close> at
  index \<open>i\<close> of the stream \<open>toks\<close>.\<close>

definition formatToken ::
  "dialect \<Rightarrow> FormatOptions \<Rightarrow> token list \<Rightarrow> nat \<Rightarrow> token \<Rightarrow> FormatterState \<times> string
     \<Rightarrow> error + FormatterState \<times> string" where
  "formatToken d cfg toks i tok s =
     (let t = tokenOverride d tok; st = fst s; query = snd s in
      if ttype t = LINE_COMMENT then Inr (st, formatLineComment cfg st t query)
      else if ttype t = BLOCK_COMMENT then Inr (st, formatBlockComment cfg st t query)
      else if ttype t = RESERVED_TOP_LEVEL then
        Inr (latch t (formatTopLevelReservedWord cfg st t query))
      else if ttype t = RESERVED_TOP_LEVEL_NO_INDENT then
        Inr (latch t (formatTopLevelReservedWordNoIndent cfg st t query))
      else if ttype t = RESERVED_NEWLINE then
        Inr (latch t (st, formatNewlineReservedWord cfg st toks i t query))
      else if ttype t = RESERVED then
        Inr (latch t (st, formatWithSpaces cfg t query PreserveBoth))
      else if ttype t = OPEN_PAREN then Inr (formatOpeningParentheses cfg st toks i t query)
      else if ttype t = CLOSE_PAREN then Inr (formatClosingParentheses cfg st t query)
      else if ttype t = PLACEHOLDER then formatPlaceholder cfg st t query
      else if tvalue t = '','' then Inr (st, formatComma cfg st t query)
      else if tvalue t = '':'' then Inr (st, formatWithSpaces cfg t query PreserveAfter)
      else if tvalue t = ''.'' then Inr (st, formatWithoutSpaces cfg t query)
      else if tvalue t = '';'' then formatQuerySeparator cfg st t query
      else if tvalue t = ''['' \<or>
              (tvalue t = ''`'' \<and> map_option tvalue (tokenLookAhead toks i 2) = Some ''`'')
        then Inr (st, formatWithSpaces cfg t query PreserveBefore)
      else if tvalue t = '']'' \<or>
              (tvalue t = ''`'' \<and> map_option tvalue (tokenLookBehind toks i 2) = Some ''`'')
        then Inr (st, formatWithSpaces cfg t query PreserveAfter)
      else Inr (st, formatWithSpaces cfg t query PreserveBoth))"

text \<open>\<^verbatim>\<open>this.tokens.forEach\<close>: the tokens from index \<open>i\<close> on, in order; an error ends
  the loop.\<close>

fun forEachToken ::
  "dialect \<Rightarrow> FormatOptions \<Rightarrow> token list \<Rightarrow> nat \<Rightarrow> token list \<Rightarrow> FormatterState \<times> string
     \<Rightarrow> error + FormatterState \<times> string" where
  "forEachToken d cfg toks i [] s = Inr s"
| "forEachToken d cfg toks i (tok # rest) s =
     (case formatToken d cfg toks i tok s of
        Inl e \<Rightarrow> Inl e
      | Inr s' \<Rightarrow> forEachToken d cfg toks (Suc i) rest s')"

definition getFormattedQueryFromTokens ::
  "dialect \<Rightarrow> FormatOptions \<Rightarrow> token list \<Rightarrow> error + string" where
  "getFormattedQueryFromTokens d cfg toks =
     (case forEachToken d cfg toks 0 toks (initialState, []) of
        Inl e \<Rightarrow> Inl e
      | Inr s \<Rightarrow>
          (let formattedQuery = trimEnd (snd s)
           in Inr (if trailingNewline cfg then formattedQuery @ [LF] else formattedQuery)))"

text \<open>\<^verbatim>\<open>Formatter.format\<close>.\<close>

definition Formatter_format :: "dialect \<Rightarrow> FormatOptions \<Rightarrow> string \<Rightarrow> error + string" where
  "Formatter_format d cfg query =
     (case tokenizer d query of
        Inl e \<Rightarrow> Inl e
      | Inr toks \<Rightarrow>
          (case getFormattedQueryFromTokens d cfg toks of
             Inl e \<Rightarrow> Inl e
           | Inr formattedQuery \<Rightarrow> Inr (trim formattedQuery)))"


section \<open>The public entry\<close>

text \<open>
  The caller's \<^verbatim>\<open>Partial<FormatOptions>\<close>: every property may be missing (\<open>None\<close>);
  a property that is present holds a value of its declared type. The object may also
  carry \<^verbatim>\<open>trailingNewline\<close>, which the merge passes on to the engine.
\<close>

record PartialParenOptions =
  openParenNewline_opt :: "bool option"
  closeParenNewline_opt :: "bool option"

record PartialFormatOptions =
  language_opt :: "string option"
  indent_opt :: "string option"
  uppercase_opt :: "bool option"
  keywordPosition_opt :: "KeywordMode option"
  newline_opt :: "NewlineOption option"
  breakBeforeBooleanOperator_opt :: "bool option"
  aliasAs_opt :: "AliasMode option"
  tabulateAlias_opt :: "bool option"
  commaPosition_opt :: "CommaPosition option"
  parenOptions_opt :: "PartialParenOptions option"
  lineWidth_opt :: "int option"
  linesBetweenQueries_opt :: "int option"
  denseOperators_opt :: "bool option"
  semicolonNewline_opt :: "bool option"
  params_opt :: "ParamItems option"
  trailingNewline_opt :: "bool option"

definition supportedDialects :: "string list" where
  "supportedDialects =
     [''bigquery'', ''db2'', ''hive'', ''mariadb'', ''mysql'', ''n1ql'', ''plsql'',
      ''postgresql'', ''redshift'', ''spark'', ''sql'', ''tsql'']"

text \<open>
  A property of the object that \<^verbatim>\<open>format\<close> has worked on: missing, present and
  undefined (what the assignment \<^verbatim>\<open>cfg.lineWidth = undefined\<close> leaves), or present
  with a value. An object spread copies every present property, an undefined one too.
\<close>

datatype 'a property = Absent | Undefined | Value 'a

definition spreadOver :: "'a \<Rightarrow> 'a property \<Rightarrow> 'a option" where
  "spreadOver dflt p = (case p of Absent \<Rightarrow> Some dflt | Undefined \<Rightarrow> None | Value v \<Rightarrow> Some v)"

definition orDefault :: "'a \<Rightarrow> 'a option \<Rightarrow> 'a" where
  "orDefault dflt p = (case p of None \<Rightarrow> dflt | Some v \<Rightarrow> v)"

text \<open>
  Lines 93 to 100 of \<^verbatim>\<open>format\<close>. The outer condition reads the option as a truth
  value, so the number zero does not enter the block; a mode is not a number.
\<close>

definition newlineGuard :: "NewlineOption option \<Rightarrow> error + NewlineOption option" where
  "newlineGuard nl =
     (case nl of
        Some (Num n) \<Rightarrow>
          (if n \<noteq> 0 then
             (if n < 0 then Inl InvalidNewline
              else if n = 0 then Inr (Some (Mode always))
              else Inr nl)
           else Inr nl)
      | _ \<Rightarrow> Inr nl)"

definition lineWidthWarning :: string where
  "lineWidthWarning = ''Warning: cfg.linewidth was <=0, reset to default value''"

text \<open>Lines 102 to 105 of \<^verbatim>\<open>format\<close>: the warnings printed and the property left.\<close>

definition lineWidthGuard :: "int option \<Rightarrow> string list \<times> int property" where
  "lineWidthGuard lw =
     (case lw of
        None \<Rightarrow> ([], Absent)
      | Some w \<Rightarrow> (if w \<noteq> 0 \<and> w \<le> 0 then ([lineWidthWarning], Undefined) else ([], Value w)))"

definition defaultParenOptions :: ParenOptions where
  "defaultParenOptions = \<lparr>openParenNewline = True, closeParenNewline = True\<rparr>"

definition mergeParenOptions :: "PartialParenOptions option \<Rightarrow> ParenOptions" where
  "mergeParenOptions p =
     (case p of
        None \<Rightarrow> defaultParenOptions
      | Some po \<Rightarrow>
          \<lparr>openParenNewline = orDefault True (openParenNewline_opt po),
           closeParenNewline = orDefault True (closeParenNewline_opt po)\<rparr>)"

text \<open>
  Lines 82 to 132 of \<^verbatim>\<open>format\<close>: the checks and the merge with the defaults. The
  result is the warnings printed, and the error thrown or the options the formatter is
  built with.
\<close>

definition resolveOptions :: "PartialFormatOptions \<Rightarrow> string list \<times> (error + FormatOptions)" where
  "resolveOptions cfg =
     (case (case language_opt cfg of
              Some l \<Rightarrow> if l \<noteq> [] \<and> l \<notin> set supportedDialects then Some l else None
            | None \<Rightarrow> None) of
        Some l \<Rightarrow> ([], Inl (UnsupportedDialect l))
      | None \<Rightarrow>
          (let indent1 =
                 (if keywordPosition_opt cfg = Some tenSpaceLeft \<or>
                     keywordPosition_opt cfg = Some tenSpaceRight
                  then Some (repeat [SP] 10) else indent_opt cfg)
           in case newlineGuard (newline_opt cfg) of
                Inl e \<Rightarrow> ([], Inl e)
              | Inr newline1 \<Rightarrow>
                  (let (warnings, lineWidth1) = lineWidthGuard (lineWidth_opt cfg)
                   in (warnings,
                       Inr \<lparr>language = orDefault ''sql'' (language_opt cfg),
                            indent = orDefault [SP, SP] indent1,
                            uppercase = orDefault True (uppercase_opt cfg),
                            keywordPosition = orDefault standard (keywordPosition_opt cfg),
                            newline = orDefault (Mode always) newline1,
                            breakBeforeBooleanOperator =
                              orDefault True (breakBeforeBooleanOperator_opt cfg),
                            aliasAs = orDefault aliasSelect (aliasAs_opt cfg),
                            tabulateAlias = orDefault False (tabulateAlias_opt cfg),
                            commaPosition = orDefault after (commaPosition_opt cfg),
                            parenOptions = mergeParenOptions (parenOptions_opt cfg),
                            lineWidth = spreadOver 50 lineWidth1,
                            linesBetweenQueries = orDefault 1 (linesBetweenQueries_opt cfg),
                            denseOperators = orDefault False (denseOperators_opt cfg),
                            semicolonNewline = orDefault False (semicolonNewline_opt cfg),
                            params = params_opt cfg,
                            trailingNewline = orDefault False (trailingNewline_opt cfg)\<rparr>))))"

text \<open>
  \<^verbatim>\<open>format\<close>: the warnings printed and the outcome. The formatter classes of the
  dialects are not among the sources, so the table \<^verbatim>\<open>formatters\<close> is a parameter; it
  is read at the twelve supported names only, and any other name (the empty string passes
  the check of the language) finds no class to construct. The query is a string by its
  type, so the first check of the source cannot fail.
\<close>

definition format ::
  "(string \<Rightarrow> dialect) \<Rightarrow> string \<Rightarrow> PartialFormatOptions \<Rightarrow> string list \<times> (error + string)" where
  "format formatters query cfg =
     (case resolveOptions cfg of
        (warnings, Inl e) \<Rightarrow> (warnings, Inl e)
      | (warnings, Inr opts) \<Rightarrow>
          (if language opts \<in> set supportedDialects
           then (warnings, Formatter_format (formatters (language opts)) opts query)
           else (warnings, Inl NotAConstructor)))"


section \<open>Example inputs\<close>

text \<open>The default options of \<^verbatim>\<open>format\<close>, as the formatter receives them when the caller
  passes none.\<close>

definition defaultOptions :: FormatOptions where
  "defaultOptions =
     \<lparr>language = ''sql'', indent = [SP, SP], uppercase = True, keywordPosition = standard,
      newline = Mode always, breakBeforeBooleanOperator = True, aliasAs = aliasSelect,
      tabulateAlias = False, commaPosition = after,
      parenOptions = \<lparr>openParenNewline = True, closeParenNewline = True\<rparr>,
      lineWidth = Some 50, linesBetweenQueries = 1, denseOperators = False,
      semicolonNewline = False, params = None, trailingNewline = False\<rparr>"

definition emptyOptions :: PartialFormatOptions where
  "emptyOptions =
     \<lparr>language_opt = None, indent_opt = None, uppercase_opt = None,
      keywordPosition_opt = None, newline_opt = None, breakBeforeBooleanOperator_opt = None,
      aliasAs_opt = None, tabulateAlias_opt = None, commaPosition_opt = None,
      parenOptions_opt = None, lineWidth_opt = None, linesBetweenQueries_opt = None,
      denseOperators_opt = None, semicolonNewline_opt = None, params_opt = None,
      trailingNewline_opt = None\<rparr>"

text \<open>A token that followed one space in the source.\<close>

definition mkToken :: "tokenType \<Rightarrow> string \<Rightarrow> token" where
  "mkToken ty v = \<lparr>ttype = ty, tvalue = v, whitespaceBefore = Some [SP], key = None\<rparr>"

text \<open>The base class \<^verbatim>\<open>Formatter\<close>: no tokenizer, and the identity as token override.\<close>

definition baseFormatter :: dialect where
  "baseFormatter =
     \<lparr>tokenizer = (\<lambda>query. Inl NotImplemented), tokenOverride = (\<lambda>token. token)\<rparr>"

text \<open>The tokens of \<^verbatim>\<open>x between 1 and 2 and y\<close>.\<close>

definition betweenTokens :: "token list" where
  "betweenTokens =
     [mkToken WORD ''x'', mkToken RESERVED ''between'', mkToken NUMBER ''1'',
      mkToken RESERVED_NEWLINE ''and'', mkToken NUMBER ''2'',
      mkToken RESERVED_NEWLINE ''and'', mkToken WORD ''y'']"

text \<open>The lexeme of a keyword of two words, with a space, a tab and a line feed between
  them.\<close>

definition leftJoin :: string where
  "leftJoin = ''left'' @ [SP, TAB, LF] @ ''join''"

text \<open>The tokens of \<^verbatim>\<open>select a\<close> and of the spec's first scenario, \<^verbatim>\<open>SELECT a FROM b\<close>.\<close>

definition selectTokens :: "token list" where
  "selectTokens = [mkToken RESERVED_TOP_LEVEL ''select'', mkToken WORD ''a'']"

definition scenarioTokens :: "token list" where
  "scenarioTokens =
     [mkToken RESERVED_TOP_LEVEL ''SELECT'', mkToken WORD ''a'',
      mkToken RESERVED_TOP_LEVEL ''FROM'', mkToken WORD ''b'']"

text \<open>A dialect whose tokenizer knows these two queries only.\<close>

definition scenarioFormatter :: dialect where
  "scenarioFormatter =
     \<lparr>tokenizer = (\<lambda>query. if query = ''SELECT a FROM b'' then Inr scenarioTokens
                              else if query = ''select a'' then Inr selectTokens
                              else Inl (TokenizerStuck 0)),
      tokenOverride = (\<lambda>token. token)\<rparr>"


section \<open>The scenarios of the spec\<close>

text \<open>The engine, with the parts modelled from the spec, on the token streams of the
  spec's scenarios 2 to 5 and of \<^verbatim>\<open>LIMIT 10, 20\<close>; the results are trimmed as
  \<^verbatim>\<open>Formatter.format\<close> does.\<close>

lemma scenario_list_and_condition:
  "map_sum (\<lambda>e. e) trim (getFormattedQueryFromTokens baseFormatter defaultOptions
     [mkToken RESERVED_TOP_LEVEL ''SELECT'', mkToken WORD ''a'', mkToken PUNCTUATION '','',
      mkToken WORD ''b'', mkToken RESERVED_TOP_LEVEL ''FROM'', mkToken WORD ''t'',
      mkToken RESERVED_TOP_LEVEL ''WHERE'', mkToken WORD ''x'', mkToken OPERATOR ''='',
      mkToken NUMBER ''1'', mkToken RESERVED_NEWLINE ''AND'', mkToken WORD ''y'',
      mkToken OPERATOR ''='', mkToken NUMBER ''2'']) =
   Inr (''SELECT'' @ [LF] @ ''  a,'' @ [LF] @ ''  b'' @ [LF] @ ''FROM'' @ [LF] @ ''  t'' @ [LF] @
        ''WHERE'' @ [LF] @ ''  x = 1'' @ [LF] @ ''  AND y = 2'')"
  by code_simp

lemma scenario_inline_block:
  "map_sum (\<lambda>e. e) trim (getFormattedQueryFromTokens baseFormatter defaultOptions
     [mkToken RESERVED_TOP_LEVEL ''SELECT'', mkToken WORD ''count'',
      (mkToken OPEN_PAREN ''('')\<lparr>whitespaceBefore := Some []\<rparr>, mkToken OPERATOR ''*'',
      mkToken CLOSE_PAREN '')'', mkToken RESERVED_TOP_LEVEL ''FROM'', mkToken WORD ''t'']) =
   Inr (''SELECT'' @ [LF] @ ''  count(*)'' @ [LF] @ ''FROM'' @ [LF] @ ''  t'')"
  by code_simp

lemma scenario_between:
  "map_sum (\<lambda>e. e) trim (getFormattedQueryFromTokens baseFormatter defaultOptions
     [mkToken RESERVED_TOP_LEVEL ''SELECT'', mkToken WORD ''a'',
      mkToken RESERVED_TOP_LEVEL ''FROM'', mkToken WORD ''t'',
      mkToken RESERVED_TOP_LEVEL ''WHERE'', mkToken WORD ''x'', mkToken RESERVED ''BETWEEN'',
      mkToken NUMBER ''1'', mkToken RESERVED_NEWLINE ''AND'', mkToken NUMBER ''2'']) =
   Inr (''SELECT'' @ [LF] @ ''  a'' @ [LF] @ ''FROM'' @ [LF] @ ''  t'' @ [LF] @
        ''WHERE'' @ [LF] @ ''  x BETWEEN 1 AND 2'')"
  by code_simp

lemma scenario_two_queries:
  "map_sum (\<lambda>e. e) trim (getFormattedQueryFromTokens baseFormatter (defaultOptions\<lparr>linesBetweenQueries := 2\<rparr>)
     [mkToken RESERVED_TOP_LEVEL ''SELECT'', mkToken OPERATOR ''*'',
      mkToken RESERVED_TOP_LEVEL ''FROM'', mkToken WORD ''a'', mkToken PUNCTUATION '';'',
      mkToken RESERVED_TOP_LEVEL ''SELECT'', mkToken OPERATOR ''*'',
      mkToken RESERVED_TOP_LEVEL ''FROM'', mkToken WORD ''b'']) =
   Inr (''SELECT'' @ [LF] @ ''  *'' @ [LF] @ ''FROM'' @ [LF] @ ''  a;'' @ [LF, LF] @
        ''SELECT'' @ [LF] @ ''  *'' @ [LF] @ ''FROM'' @ [LF] @ ''  b'')"
  by code_simp

lemma scenario_limit:
  "map_sum (\<lambda>e. e) trim (getFormattedQueryFromTokens baseFormatter defaultOptions
     [mkToken RESERVED_TOP_LEVEL ''LIMIT'', mkToken NUMBER ''10'', mkToken PUNCTUATION '','',
      mkToken NUMBER ''20'']) =
   Inr (''LIMIT'' @ [LF] @ ''  10, 20'')"
  by code_simp


section \<open>Strings and tokens: basic facts\<close>

lemma toCase_punct: "toUpperCase '';'' = '';''" "toLowerCase '';'' = '';''"
  "toUpperCase '','' = '',''" "toLowerCase '','' = '',''"
  by (simp_all add: toUpperCase_def toLowerCase_def toUpperChar_def toLowerChar_def lowerLetters_def upperLetters_def)

lemma showToken_punct:
  "tvalue t = '';'' \<Longrightarrow> showToken cfg t = '';''"
  "tvalue t = '','' \<Longrightarrow> showToken cfg t = '',''"
  by (simp_all add: showToken_def toCase_punct)

lemma toUpperChar_LF: "toUpperChar c = LF \<longleftrightarrow> c = LF" "LF = toUpperChar c \<longleftrightarrow> c = LF"
  by (auto simp: toUpperChar_def lowerLetters_def upperLetters_def split: if_splits)

lemma toLowerChar_LF: "toLowerChar c = LF \<longleftrightarrow> c = LF" "LF = toLowerChar c \<longleftrightarrow> c = LF"
  by (auto simp: toLowerChar_def lowerLetters_def upperLetters_def split: if_splits)

lemma LF_in_toUpperCase: "LF \<in> set (toUpperCase s) \<longleftrightarrow> LF \<in> set s"
  by (induction s) (auto simp: toUpperCase_def toUpperChar_LF)

lemma LF_in_toLowerCase: "LF \<in> set (toLowerCase s) \<longleftrightarrow> LF \<in> set s"
  by (induction s) (auto simp: toLowerCase_def toLowerChar_LF)

lemma isAnd_no_LF:
  assumes "isAnd (Some t)"
  shows "LF \<notin> set (showToken cfg t)"
proof -
  from assms have "toUpperCase (tvalue t) = ''AND''"
    by (simp add: isAnd_def)
  then have "LF \<notin> set (toUpperCase (tvalue t))"
    by simp
  then have "LF \<notin> set (tvalue t)"
    by (simp only: LF_in_toUpperCase not_False_eq_True)
  then show ?thesis
    by (simp add: showToken_def LF_in_toUpperCase LF_in_toLowerCase)
qed

text \<open>\<^verbatim>\<open>equalizeWhitespace\<close>: what the replacement of \<^verbatim>\<open>/\s+/gu\<close> by one space does.\<close>

lemma equalizeWhitespace_spaces:
  "c \<in> set (equalizeWhitespace s) \<Longrightarrow> isWhitespace c \<Longrightarrow> c = SP"
  by (induction s rule: equalizeWhitespace.induct) (auto split: if_splits)

lemma equalizeWhitespace_after_run:
  "equalizeWhitespace (dropWhile isWhitespace s) = [] \<or>
   \<not> isWhitespace (hd (equalizeWhitespace (dropWhile isWhitespace s)))"
proof (cases "dropWhile isWhitespace s")
  case Nil
  then have "equalizeWhitespace (dropWhile isWhitespace s) = []"
    by (simp only: equalizeWhitespace.simps)
  then show ?thesis ..
next
  case (Cons x xs)
  then have "\<not> isWhitespace x"
    using hd_dropWhile [of isWhitespace s] by simp
  with Cons have "\<not> isWhitespace (hd (equalizeWhitespace (dropWhile isWhitespace s)))"
    by (simp only: equalizeWhitespace.simps if_False list.sel not_False_eq_True)
  then show ?thesis ..
qed

lemma equalizeWhitespace_single:
  "equalizeWhitespace s \<noteq> a @ [SP, SP] @ b"
proof (induction s arbitrary: a rule: equalizeWhitespace.induct)
  case 1
  then show ?case by simp
next
  case (2 c cs)
  show ?case
  proof (cases "isWhitespace c")
    case True
    let ?n = "equalizeWhitespace (dropWhile isWhitespace cs)"
    show ?thesis
    proof
      assume eq: "equalizeWhitespace (c # cs) = a @ [SP, SP] @ b"
      show False
      proof (cases a)
        case Nil
        with eq True have "?n = SP # b" by simp
        with equalizeWhitespace_after_run [of cs] show False
          by (simp add: isWhitespace_def)
      next
        case (Cons x a')
        with eq True have "?n = a' @ [SP, SP] @ b" by simp
        with 2(1) [OF True] show False by blast
      qed
    qed
  next
    case False
    show ?thesis
    proof
      assume eq: "equalizeWhitespace (c # cs) = a @ [SP, SP] @ b"
      show False
      proof (cases a)
        case Nil
        with eq False have "c = SP" by simp
        with False show False by (simp add: isWhitespace_def)
      next
        case (Cons x a')
        with eq False have "equalizeWhitespace cs = a' @ [SP, SP] @ b" by simp
        with 2(2) [OF False] show False by blast
      qed
    qed
  qed
qed

lemma equalizeWhitespace_no_whitespace:
  "\<forall>c\<in>set s. \<not> isWhitespace c \<Longrightarrow> equalizeWhitespace s = s"
  by (induction s) simp_all

lemma equalizeWhitespace_run:
  assumes "\<forall>c\<in>set u. \<not> isWhitespace c" and "w \<noteq> []" and "\<forall>c\<in>set w. isWhitespace c"
    and "v = [] \<or> \<not> isWhitespace (hd v)"
  shows "equalizeWhitespace (u @ w @ v) = u @ [SP] @ equalizeWhitespace v"
  using assms(1)
proof (induction u)
  case Nil
  from assms(2) obtain x w' where w: "w = x # w'" by (cases w) auto
  have "dropWhile isWhitespace (w' @ v) = v"
    using assms(3,4) w by (cases v) (auto simp: dropWhile_append3 dropWhile_append)
  with w assms(3) show ?case by simp
next
  case (Cons c u)
  then show ?case by simp
qed


section \<open>The rules of the dispatch table\<close>

text \<open>
  Claim C9. With the uppercase option disabled, \<^verbatim>\<open>show\<close> renders every token of type
  RESERVED, RESERVED_TOP_LEVEL, RESERVED_TOP_LEVEL_NO_INDENT, RESERVED_NEWLINE, OPEN_PAREN
  or CLOSE_PAREN in lower case; a token of any other type is rendered as its source
  value, whatever the uppercase option is.
\<close>

theorem show_case_rendering:
  "(\<not> uppercase cfg \<and>
      ttype t \<in> {RESERVED, RESERVED_TOP_LEVEL, RESERVED_TOP_LEVEL_NO_INDENT, RESERVED_NEWLINE,
                  OPEN_PAREN, CLOSE_PAREN}
      \<longrightarrow> showToken cfg t = toLowerCase (tvalue t)) \<and>
   (ttype t \<notin> {RESERVED, RESERVED_TOP_LEVEL, RESERVED_TOP_LEVEL_NO_INDENT, RESERVED_NEWLINE,
                 OPEN_PAREN, CLOSE_PAREN}
      \<longrightarrow> showToken cfg t = tvalue t)"
  by (auto simp: showToken_def caseRendered_def)

theorem show_case_rendering_witness:
  "showToken (defaultOptions\<lparr>uppercase := False\<rparr>) (mkToken RESERVED_TOP_LEVEL ''Select'') = ''select'' \<and>
   showToken (defaultOptions\<lparr>uppercase := False\<rparr>) (mkToken WORD ''Foo'') = ''Foo'' \<and>
   showToken defaultOptions (mkToken WORD ''Foo'') = ''Foo''"
  using show_case_rendering [of "defaultOptions\<lparr>uppercase := False\<rparr>" "mkToken RESERVED_TOP_LEVEL ''Select''"]
    show_case_rendering [of "defaultOptions\<lparr>uppercase := False\<rparr>" "mkToken WORD ''Foo''"]
    show_case_rendering [of "defaultOptions" "mkToken WORD ''Foo''"]
  by (simp add: defaultOptions_def mkToken_def toLowerCase_def toLowerChar_def lowerLetters_def upperLetters_def)

text \<open>
  Claim C6. A RESERVED_NEWLINE token (after the token override) is latched as the previous
  reserved token. If it is AND and the token two positions back in the stream is BETWEEN,
  it is appended to the output as it stands, followed by a space, and what is appended
  holds no line feed; otherwise the output gets a newline plus indent (trailing spaces
  trimmed, a line feed unless one ends the output, the current indent), the normalized
  token, and a space. The normalized token is the rendered token with every maximal run
  of whitespace replaced by one space: its only whitespace characters are spaces, no two
  of them are adjacent, a token without whitespace is unchanged, and a run of whitespace
  after a prefix without whitespace becomes one space before the normalized rest.
\<close>

theorem newline_reserved_word:
  assumes "t = tokenOverride d tok" and "ttype t = RESERVED_NEWLINE"
  shows "formatToken d cfg toks i tok (st, query) =
           Inr (st\<lparr>previousReservedToken := Some t\<rparr>,
                if isAnd (Some t) \<and> isBetween (tokenLookBehind toks i 2)
                then query @ showToken cfg t @ [SP]
                else (let q = trimSpacesEnd query in if endsWith q LF then q else q @ [LF]) @
                     getIndent (indent cfg) (indentation st) @
                     equalizeWhitespace (showToken cfg t) @ [SP]) \<and>
         (isAnd (Some t) \<longrightarrow> LF \<notin> set (showToken cfg t @ [SP])) \<and>
         (\<forall>c\<in>set (equalizeWhitespace (showToken cfg t)). isWhitespace c \<longrightarrow> c = SP) \<and>
         (\<forall>a b. equalizeWhitespace (showToken cfg t) \<noteq> a @ [SP, SP] @ b) \<and>
         ((\<forall>c\<in>set (showToken cfg t). \<not> isWhitespace c) \<longrightarrow>
            equalizeWhitespace (showToken cfg t) = showToken cfg t) \<and>
         (\<forall>u w v. showToken cfg t = u @ w @ v \<and> (\<forall>c\<in>set u. \<not> isWhitespace c) \<and>
            w \<noteq> [] \<and> (\<forall>c\<in>set w. isWhitespace c) \<and> (v = [] \<or> \<not> isWhitespace (hd v))
            \<longrightarrow> equalizeWhitespace (showToken cfg t) = u @ [SP] @ equalizeWhitespace v)"
proof -
  have rule: "formatToken d cfg toks i tok (st, query) =
           Inr (st\<lparr>previousReservedToken := Some t\<rparr>,
                if isAnd (Some t) \<and> isBetween (tokenLookBehind toks i 2)
                then query @ showToken cfg t @ [SP]
                else (let q = trimSpacesEnd query in if endsWith q LF then q else q @ [LF]) @
                     getIndent (indent cfg) (indentation st) @
                     equalizeWhitespace (showToken cfg t) @ [SP])"
    using assms
    by (simp add: formatToken_def latch_def formatNewlineReservedWord_def formatWithSpaces_def
        addNewline_def Let_def)
  have same_line: "isAnd (Some t) \<longrightarrow> LF \<notin> set (showToken cfg t @ [SP])"
    using isAnd_no_LF [of t cfg] by simp
  have spaces: "\<forall>c\<in>set (equalizeWhitespace (showToken cfg t)). isWhitespace c \<longrightarrow> c = SP"
    using equalizeWhitespace_spaces by blast
  have single: "\<forall>a b. equalizeWhitespace (showToken cfg t) \<noteq> a @ [SP, SP] @ b"
    using equalizeWhitespace_single by blast
  have plain: "(\<forall>c\<in>set (showToken cfg t). \<not> isWhitespace c) \<longrightarrow>
            equalizeWhitespace (showToken cfg t) = showToken cfg t"
    using equalizeWhitespace_no_whitespace by blast
  have run: "\<forall>u w v. showToken cfg t = u @ w @ v \<and> (\<forall>c\<in>set u. \<not> isWhitespace c) \<and>
            w \<noteq> [] \<and> (\<forall>c\<in>set w. isWhitespace c) \<and> (v = [] \<or> \<not> isWhitespace (hd v))
            \<longrightarrow> equalizeWhitespace (showToken cfg t) = u @ [SP] @ equalizeWhitespace v"
    using equalizeWhitespace_run by metis
  from rule same_line spaces single plain run show ?thesis
    by (intro conjI)
qed

lemma toUpperCase_and: "toUpperCase ''and'' = ''AND''" "toUpperCase ''between'' = ''BETWEEN''"
  "toUpperCase ''1'' = ''1''"
  by (simp_all add: toUpperCase_def toUpperChar_def lowerLetters_def upperLetters_def)

lemma toUpperCase_leftJoin:
  "toUpperCase leftJoin = ''LEFT'' @ [SP, TAB, LF] @ ''JOIN''"
  by (simp add: leftJoin_def toUpperCase_def toUpperChar_def lowerLetters_def upperLetters_def)

theorem newline_reserved_word_witness:
  "formatToken baseFormatter defaultOptions betweenTokens 3 (mkToken RESERVED_NEWLINE ''and'')
     (initialState, ''x BETWEEN 1 '') =
   Inr (initialState\<lparr>previousReservedToken := Some (mkToken RESERVED_NEWLINE ''and'')\<rparr>,
        ''x BETWEEN 1 AND '') \<and>
   formatToken baseFormatter defaultOptions betweenTokens 5 (mkToken RESERVED_NEWLINE ''and'')
     (initialState\<lparr>indentation := [TOP_LEVEL]\<rparr>, ''x BETWEEN 1 AND 2 '') =
   Inr (initialState\<lparr>indentation := [TOP_LEVEL],
          previousReservedToken := Some (mkToken RESERVED_NEWLINE ''and'')\<rparr>,
        ''x BETWEEN 1 AND 2'' @ [LF] @ ''  AND '') \<and>
   formatToken baseFormatter defaultOptions [] 0
     (mkToken RESERVED_NEWLINE leftJoin)
     (initialState\<lparr>indentation := [TOP_LEVEL]\<rparr>, ''a '') =
   Inr (initialState\<lparr>indentation := [TOP_LEVEL],
          previousReservedToken :=
            Some (mkToken RESERVED_NEWLINE leftJoin)\<rparr>,
        ''a'' @ [LF] @ ''  LEFT JOIN '') \<and>
   equalizeWhitespace (''LEFT'' @ [SP, TAB, LF] @ ''JOIN'') = ''LEFT JOIN''"
proof -
  let ?and = "mkToken RESERVED_NEWLINE ''and''"
  let ?join = "mkToken RESERVED_NEWLINE leftJoin"
  have h1: "?and = tokenOverride baseFormatter ?and"
    by (simp add: baseFormatter_def)
  have h2: "ttype ?and = RESERVED_NEWLINE"
    by (simp add: mkToken_def)
  have j1: "?join = tokenOverride baseFormatter ?join"
    by (simp add: baseFormatter_def)
  have j2: "ttype ?join = RESERVED_NEWLINE"
    by (simp add: mkToken_def)
  have b3: "isBetween (tokenLookBehind betweenTokens 3 2)"
    by (simp add: isBetween_def tokenLookBehind_def betweenTokens_def mkToken_def toUpperCase_and)
  have b5: "\<not> isBetween (tokenLookBehind betweenTokens 5 2)"
    by (simp add: isBetween_def tokenLookBehind_def betweenTokens_def mkToken_def toUpperCase_and)
  have a: "isAnd (Some ?and)"
    by (simp add: isAnd_def mkToken_def toUpperCase_and)
  have na: "\<not> isAnd (Some ?join)"
    using toUpperCase_leftJoin by (simp add: isAnd_def mkToken_def)
  have sh: "showToken defaultOptions ?and = ''AND''"
    by (simp add: showToken_def caseRendered_def mkToken_def defaultOptions_def toUpperCase_and)
  have shj: "showToken defaultOptions ?join = ''LEFT'' @ [SP, TAB, LF] @ ''JOIN''"
    using toUpperCase_leftJoin
    by (simp add: showToken_def caseRendered_def mkToken_def defaultOptions_def)
  have plain: "\<forall>c\<in>set ''AND''. \<not> isWhitespace c" "\<forall>c\<in>set ''LEFT''. \<not> isWhitespace c"
    "\<forall>c\<in>set ''JOIN''. \<not> isWhitespace c" "\<forall>c\<in>set [SP, TAB, LF]. isWhitespace c"
    "\<not> isWhitespace (hd ''JOIN'')"
    by (simp_all add: isWhitespace_def)
  have tr: "trimSpacesEnd ''x BETWEEN 1 AND 2 '' = ''x BETWEEN 1 AND 2''"
    "trimSpacesEnd ''a '' = ''a''"
    by (simp_all add: trimSpacesEnd_def)
  have ind: "getIndent (indent defaultOptions) [TOP_LEVEL] = ''  ''"
    by (simp add: getIndent_def repeat_def defaultOptions_def)
  note and3 = newline_reserved_word [OF h1 h2, of defaultOptions betweenTokens 3 initialState
      "''x BETWEEN 1 ''"]
  note and5 = newline_reserved_word [OF h1 h2, of defaultOptions betweenTokens 5
      "initialState\<lparr>indentation := [TOP_LEVEL]\<rparr>" "''x BETWEEN 1 AND 2 ''"]
  note join = newline_reserved_word [OF j1 j2, of defaultOptions "[]" 0
      "initialState\<lparr>indentation := [TOP_LEVEL]\<rparr>" "''a ''"]
  from and3 plain(1) have eqAnd: "equalizeWhitespace ''AND'' = ''AND''"
    unfolding sh by blast
  from join plain(2,4,5) have "equalizeWhitespace (''LEFT'' @ [SP, TAB, LF] @ ''JOIN'') =
      ''LEFT'' @ [SP] @ equalizeWhitespace ''JOIN''"
    unfolding shj by blast
  moreover from join have "equalizeWhitespace ''JOIN'' = ''JOIN''"
    using equalizeWhitespace_no_whitespace [OF plain(3)] by simp
  ultimately have eqJoin: "equalizeWhitespace (''LEFT'' @ [SP, TAB, LF] @ ''JOIN'') = ''LEFT JOIN''"
    by simp
  have r3: "formatToken baseFormatter defaultOptions betweenTokens 3 ?and
     (initialState, ''x BETWEEN 1 '') =
   Inr (initialState\<lparr>previousReservedToken := Some ?and\<rparr>, ''x BETWEEN 1 AND '')"
    using and3 by (simp add: b3 a sh)
  have r5: "formatToken baseFormatter defaultOptions betweenTokens 5 ?and
     (initialState\<lparr>indentation := [TOP_LEVEL]\<rparr>, ''x BETWEEN 1 AND 2 '') =
   Inr (initialState\<lparr>indentation := [TOP_LEVEL], previousReservedToken := Some ?and\<rparr>,
        ''x BETWEEN 1 AND 2'' @ [LF] @ ''  AND '')"
    using and5 eqAnd by (simp add: b5 a sh tr ind endsWith_def)
  have rj: "formatToken baseFormatter defaultOptions [] 0 ?join
     (initialState\<lparr>indentation := [TOP_LEVEL]\<rparr>, ''a '') =
   Inr (initialState\<lparr>indentation := [TOP_LEVEL], previousReservedToken := Some ?join\<rparr>,
        ''a'' @ [LF] @ ''  LEFT JOIN '')"
    using join eqJoin by (simp add: na shj tr ind endsWith_def)
  from r3 r5 rj eqJoin show ?thesis
    by (intro conjI)
qed

text \<open>
  Claim C7. For a token with value \<^verbatim>\<open>,\<close> the rule trims the trailing spaces of the
  output and appends the comma and a space; when the inline block is active or the
  previous reserved token is LIMIT that is the result, and otherwise a newline plus indent
  follows (which trims the space again, so the comma ends its line). The dispatch applies
  this rule to every such token whose type none of the earlier rows takes.
\<close>

theorem comma_rule:
  assumes "tvalue t = '',''"
  shows "formatComma cfg st t query =
           (if isActive (inlineBlock st) \<or> isLimit (previousReservedToken st)
            then trimSpacesEnd query @ '','' @ [SP]
            else addNewline cfg st (trimSpacesEnd query @ '','' @ [SP])) \<and>
         addNewline cfg st (trimSpacesEnd query @ '','' @ [SP]) =
           trimSpacesEnd query @ '','' @ [LF] @ getIndent (indent cfg) (indentation st) \<and>
         (t = tokenOverride d tok \<and>
          ttype t \<notin> {LINE_COMMENT, BLOCK_COMMENT, RESERVED_TOP_LEVEL, RESERVED_TOP_LEVEL_NO_INDENT,
                      RESERVED_NEWLINE, RESERVED, OPEN_PAREN, CLOSE_PAREN, PLACEHOLDER}
          \<longrightarrow> formatToken d cfg toks i tok (st, query) = Inr (st, formatComma cfg st t query))"
proof -
  have "trimSpacesEnd (trimSpacesEnd query @ '','' @ [SP]) = trimSpacesEnd query @ '',''"
    by (simp add: trimSpacesEnd_def)
  then have "addNewline cfg st (trimSpacesEnd query @ '','' @ [SP]) =
           trimSpacesEnd query @ '','' @ [LF] @ getIndent (indent cfg) (indentation st)"
    by (simp add: addNewline_def endsWith_def)
  moreover have "formatComma cfg st t query =
           (if isActive (inlineBlock st) \<or> isLimit (previousReservedToken st)
            then trimSpacesEnd query @ '','' @ [SP]
            else addNewline cfg st (trimSpacesEnd query @ '','' @ [SP]))"
    using assms by (simp add: formatComma_def showToken_punct Let_def)
  moreover have "t = tokenOverride d tok \<and>
          ttype t \<notin> {LINE_COMMENT, BLOCK_COMMENT, RESERVED_TOP_LEVEL, RESERVED_TOP_LEVEL_NO_INDENT,
                      RESERVED_NEWLINE, RESERVED, OPEN_PAREN, CLOSE_PAREN, PLACEHOLDER}
          \<longrightarrow> formatToken d cfg toks i tok (st, query) = Inr (st, formatComma cfg st t query)"
    using assms by (auto simp: formatToken_def Let_def)
  ultimately show ?thesis by blast
qed

theorem comma_rule_witness:
  "formatToken baseFormatter defaultOptions [] 0 (mkToken PUNCTUATION '','')
     (initialState\<lparr>indentation := [TOP_LEVEL]\<rparr>, ''a '') =
   Inr (initialState\<lparr>indentation := [TOP_LEVEL]\<rparr>, ''a,'' @ [LF] @ ''  '') \<and>
   formatToken baseFormatter defaultOptions [] 0 (mkToken PUNCTUATION '','')
     (initialState\<lparr>previousReservedToken := Some (mkToken RESERVED_TOP_LEVEL ''LIMIT'')\<rparr>, ''10 '') =
   Inr (initialState\<lparr>previousReservedToken := Some (mkToken RESERVED_TOP_LEVEL ''LIMIT'')\<rparr>, ''10, '')"
proof -
  have h: "tvalue (mkToken PUNCTUATION '','') = '',''"
    by (simp add: mkToken_def)
  have ov: "mkToken PUNCTUATION '','' = tokenOverride baseFormatter (mkToken PUNCTUATION '','')"
    by (simp add: baseFormatter_def)
  have ty: "ttype (mkToken PUNCTUATION '','') = PUNCTUATION"
    by (simp add: mkToken_def)
  have lim: "isLimit (Some (mkToken RESERVED_TOP_LEVEL ''LIMIT''))" "\<not> isLimit None"
    by (simp_all add: isLimit_def mkToken_def toUpperCase_def toUpperChar_def lowerLetters_def
        upperLetters_def)
  have tr: "trimSpacesEnd ''a '' = ''a''" "trimSpacesEnd ''10 '' = ''10''"
    by (simp_all add: trimSpacesEnd_def)
  have ind: "getIndent (indent defaultOptions) [TOP_LEVEL] = ''  ''"
    by (simp add: getIndent_def repeat_def defaultOptions_def)
  show ?thesis
    using comma_rule [OF h, of defaultOptions "initialState\<lparr>indentation := [TOP_LEVEL]\<rparr>" "''a ''"
        baseFormatter "mkToken PUNCTUATION '',''" "[]" 0]
      comma_rule [OF h, of defaultOptions
        "initialState\<lparr>previousReservedToken := Some (mkToken RESERVED_TOP_LEVEL ''LIMIT'')\<rparr>"
        "''10 ''" baseFormatter "mkToken PUNCTUATION '',''" "[]" 0]
      ov
    by (simp add: ty lim tr ind isActive_def initialState_def)
qed

text \<open>
  Claim C3, as amended. For a token with value \<^verbatim>\<open>;\<close> and a non-negative
  \<^verbatim>\<open>linesBetweenQueries\<close>, the rule empties the indentation stack, trims the trailing
  spaces of the output, appends \<^verbatim>\<open>;\<close> and then \<^verbatim>\<open>linesBetweenQueries\<close> line feeds when
  that number is positive, and one line feed when it is zero. The dispatch applies this
  rule to every such token whose type none of the earlier rows takes.
\<close>

theorem query_separator_rule:
  assumes "tvalue t = '';''" and "0 \<le> linesBetweenQueries cfg"
  shows "formatQuerySeparator cfg st t query =
           Inr (st\<lparr>indentation := []\<rparr>,
                trimSpacesEnd query @ '';'' @
                replicate (if linesBetweenQueries cfg = 0 then 1 else nat (linesBetweenQueries cfg)) LF) \<and>
         (t = tokenOverride d tok \<and>
          ttype t \<notin> {LINE_COMMENT, BLOCK_COMMENT, RESERVED_TOP_LEVEL, RESERVED_TOP_LEVEL_NO_INDENT,
                      RESERVED_NEWLINE, RESERVED, OPEN_PAREN, CLOSE_PAREN, PLACEHOLDER}
          \<longrightarrow> formatToken d cfg toks i tok (st, query) = formatQuerySeparator cfg st t query)"
proof -
  have rep: "repeat [LF] n = replicate n LF" for n
    by (induction n) (simp_all add: repeat_def)
  have "formatQuerySeparator cfg st t query =
           Inr (st\<lparr>indentation := []\<rparr>,
                trimSpacesEnd query @ '';'' @
                replicate (if linesBetweenQueries cfg = 0 then 1 else nat (linesBetweenQueries cfg)) LF)"
    using assms by (simp add: formatQuerySeparator_def showToken_punct Let_def resetIndentation_def rep)
  moreover have "t = tokenOverride d tok \<and>
          ttype t \<notin> {LINE_COMMENT, BLOCK_COMMENT, RESERVED_TOP_LEVEL, RESERVED_TOP_LEVEL_NO_INDENT,
                      RESERVED_NEWLINE, RESERVED, OPEN_PAREN, CLOSE_PAREN, PLACEHOLDER}
          \<longrightarrow> formatToken d cfg toks i tok (st, query) = formatQuerySeparator cfg st t query"
    using assms by (auto simp: formatToken_def Let_def)
  ultimately show ?thesis by blast
qed

theorem query_separator_rule_witness:
  "formatToken baseFormatter (defaultOptions\<lparr>linesBetweenQueries := 2\<rparr>) [] 0
     (mkToken PUNCTUATION '';'') (initialState\<lparr>indentation := [TOP_LEVEL]\<rparr>, ''SELECT 1 '') =
   Inr (initialState, ''SELECT 1;'' @ [LF, LF])"
proof -
  have h: "tvalue (mkToken PUNCTUATION '';'') = '';''"
    by (simp add: mkToken_def)
  have n: "0 \<le> linesBetweenQueries (defaultOptions\<lparr>linesBetweenQueries := 2\<rparr>)"
    by simp
  have ov: "mkToken PUNCTUATION '';'' = tokenOverride baseFormatter (mkToken PUNCTUATION '';'')"
    by (simp add: baseFormatter_def)
  have ty: "ttype (mkToken PUNCTUATION '';'') = PUNCTUATION"
    by (simp add: mkToken_def)
  have tr: "trimSpacesEnd ''SELECT 1 '' = ''SELECT 1''"
    by (simp add: trimSpacesEnd_def)
  have two: "replicate 2 LF = [LF, LF]"
    by (simp add: numeral_2_eq_2)
  show ?thesis
    using query_separator_rule [OF h n, of "initialState\<lparr>indentation := [TOP_LEVEL]\<rparr>"
        "''SELECT 1 ''" baseFormatter "mkToken PUNCTUATION '';''" "[]" 0] ov
    by (simp add: ty tr two initialState_def)
qed


text \<open>
  Claim C3, as stated, fails when \<^verbatim>\<open>linesBetweenQueries\<close> is 0: one line feed follows the
  semicolon, not none.
\<close>

theorem query_separator_zero_counterexample:
  "formatQuerySeparator (defaultOptions\<lparr>linesBetweenQueries := 0\<rparr>) initialState
     (mkToken PUNCTUATION '';'') ''SELECT 1 '' =
   Inr (initialState, ''SELECT 1;'' @ [LF]) \<and>
   ''SELECT 1;'' @ [LF] \<noteq> ''SELECT 1;'' @ repeat [LF] 0"
  by (simp add: formatQuerySeparator_def defaultOptions_def initialState_def mkToken_def
      showToken_def caseRendered_def trimSpacesEnd_def resetIndentation_def repeat_def)


section \<open>The checks of the public entry\<close>

lemma resolveOptions_empty: "resolveOptions emptyOptions = ([], Inr defaultOptions)"
  by (simp add: resolveOptions_def emptyOptions_def defaultOptions_def newlineGuard_def
      lineWidthGuard_def orDefault_def spreadOver_def mergeParenOptions_def
      defaultParenOptions_def)

lemma negative_newline_fails:
  assumes "n < 0" and "language_opt cfg = None \<or> language_opt cfg = Some [] \<or> the (language_opt cfg) \<in> set supportedDialects"
  shows "format formatters query (cfg\<lparr>newline_opt := Some (Num n)\<rparr>) = ([], Inl InvalidNewline)"
  using assms
  by (auto simp: format_def resolveOptions_def newlineGuard_def split: option.splits)

text \<open>
  Claim C4. The option \<^verbatim>\<open>newline: 0\<close> is meant to become \<^verbatim>\<open>always\<close>, but the block that
  would do so is entered for a truthy option only: with the number 0 the checks pass,
  nothing fails, and the formatter is built with \<^verbatim>\<open>newline = 0\<close>.
\<close>

theorem newline_zero_not_normalized:
  "resolveOptions (emptyOptions\<lparr>newline_opt := Some (Num 0)\<rparr>) =
     ([], Inr (defaultOptions\<lparr>newline := Num 0\<rparr>)) \<and>
   Num 0 \<noteq> Mode always"
  by (simp add: resolveOptions_def emptyOptions_def defaultOptions_def newlineGuard_def
      lineWidthGuard_def orDefault_def spreadOver_def mergeParenOptions_def
      defaultParenOptions_def)

text \<open>
  Claim C5. A non-positive \<^verbatim>\<open>lineWidth\<close> is meant to be reset to the default 50 with a
  warning. With 0 the guard is not entered: no warning, and the formatter is built with
  line width 0. With a negative number the warning is printed and the property is set to
  undefined, which the merge copies over the default: the formatter is built with an
  undefined line width.
\<close>

theorem lineWidth_not_reset:
  "resolveOptions (emptyOptions\<lparr>lineWidth_opt := Some 0\<rparr>) =
     ([], Inr (defaultOptions\<lparr>lineWidth := Some 0\<rparr>)) \<and>
   resolveOptions (emptyOptions\<lparr>lineWidth_opt := Some (- 5)\<rparr>) =
     ([lineWidthWarning], Inr (defaultOptions\<lparr>lineWidth := None\<rparr>))"
  by (simp add: resolveOptions_def emptyOptions_def defaultOptions_def newlineGuard_def
      lineWidthGuard_def orDefault_def spreadOver_def mergeParenOptions_def
      defaultParenOptions_def)

section \<open>trim\<close>

lemma last_dropWhile: "dropWhile P xs \<noteq> [] \<Longrightarrow> last (dropWhile P xs) = last xs"
  by (metis last_appendR takeWhile_dropWhile_id)

lemma trim_no_leading: "trim s \<noteq> [] \<Longrightarrow> \<not> isWhitespace (hd (trim s))"
  unfolding trim_def trimStart_def by (rule hd_dropWhile)

lemma trimEnd_no_trailing: "trimEnd s \<noteq> [] \<Longrightarrow> \<not> isWhitespace (last (trimEnd s))"
  unfolding trimEnd_def by (simp add: last_rev hd_dropWhile)

lemma trim_no_trailing:
  assumes "trim s \<noteq> []"
  shows "\<not> isWhitespace (last (trim s))"
proof -
  from assms have ne: "trimEnd s \<noteq> []"
    by (auto simp: trim_def trimStart_def)
  from assms have "last (trim s) = last (trimEnd s)"
    unfolding trim_def trimStart_def by (rule last_dropWhile)
  with ne show ?thesis
    by (simp add: trimEnd_no_trailing)
qed

lemma trimEnd_snoc_LF: "trimEnd (s @ [LF]) = trimEnd s"
  by (simp add: trimEnd_def isWhitespace_def)

lemma trim_snoc_LF: "trim (s @ [LF]) = trim s"
  by (simp add: trim_def trimEnd_snoc_LF)

lemma isWhitespace_LF: "isWhitespace LF"
  by (simp add: isWhitespace_def)

lemma trim_not_endsWith_LF: "\<not> endsWith (trim s) LF"
  using trim_no_trailing [of s] by (auto simp: endsWith_def isWhitespace_LF)


section \<open>The result is trimmed\<close>

lemma Formatter_format_trim:
  assumes "Formatter_format d cfg query = Inr out"
  shows "\<exists>s. out = trim s"
  using assms
  by (auto simp: Formatter_format_def split: sum.splits)

lemma format_Inr:
  assumes "snd (format formatters query cfg) = Inr out"
  shows "\<exists>d opts. Formatter_format d opts query = Inr out"
  using assms
  by (auto simp: format_def split: prod.splits sum.splits if_splits)

text \<open>
  Claim C8. A string returned by \<^verbatim>\<open>Formatter.format\<close>, and so by the public
  \<^verbatim>\<open>format\<close>, is empty or begins and ends with a character that is not whitespace:
  it has no leading whitespace and no trailing whitespace (the one trailing newline the
  claim allows does not occur either).
\<close>

theorem format_trimmed:
  "(Formatter_format d opts query = Inr out \<longrightarrow>
      out = [] \<or> (\<not> isWhitespace (hd out) \<and> \<not> isWhitespace (last out))) \<and>
   (snd (format formatters query cfg) = Inr out \<longrightarrow>
      out = [] \<or> (\<not> isWhitespace (hd out) \<and> \<not> isWhitespace (last out)))"
proof -
  have "out' = [] \<or> (\<not> isWhitespace (hd out') \<and> \<not> isWhitespace (last out'))"
    if "Formatter_format d' opts' query = Inr out'" for d' opts' out'
  proof -
    from that obtain s where "out' = trim s"
      using Formatter_format_trim by blast
    then show ?thesis
      using trim_no_leading [of s] trim_no_trailing [of s] by blast
  qed
  then show ?thesis
    using format_Inr [of formatters query cfg out] by blast
qed

lemma showToken_trailingNewline:
  "showToken (cfg\<lparr>trailingNewline := b\<rparr>) t = showToken cfg t"
  by (simp add: showToken_def)

lemma addNewline_trailingNewline:
  "addNewline (cfg\<lparr>trailingNewline := b\<rparr>) st q = addNewline cfg st q"
  by (simp add: addNewline_def)

lemma rules_trailingNewline:
  "formatLineComment (cfg\<lparr>trailingNewline := b\<rparr>) st t q = formatLineComment cfg st t q"
  "formatBlockComment (cfg\<lparr>trailingNewline := b\<rparr>) st t q = formatBlockComment cfg st t q"
  "formatTopLevelReservedWord (cfg\<lparr>trailingNewline := b\<rparr>) st t q =
     formatTopLevelReservedWord cfg st t q"
  "formatTopLevelReservedWordNoIndent (cfg\<lparr>trailingNewline := b\<rparr>) st t q =
     formatTopLevelReservedWordNoIndent cfg st t q"
  "formatNewlineReservedWord (cfg\<lparr>trailingNewline := b\<rparr>) st toks i t q =
     formatNewlineReservedWord cfg st toks i t q"
  "formatWithSpaces (cfg\<lparr>trailingNewline := b\<rparr>) t q p = formatWithSpaces cfg t q p"
  "formatWithoutSpaces (cfg\<lparr>trailingNewline := b\<rparr>) t q = formatWithoutSpaces cfg t q"
  "formatOpeningParentheses (cfg\<lparr>trailingNewline := b\<rparr>) st toks i t q =
     formatOpeningParentheses cfg st toks i t q"
  "formatClosingParentheses (cfg\<lparr>trailingNewline := b\<rparr>) st t q =
     formatClosingParentheses cfg st t q"
  "formatPlaceholder (cfg\<lparr>trailingNewline := b\<rparr>) st t q = formatPlaceholder cfg st t q"
  "formatComma (cfg\<lparr>trailingNewline := b\<rparr>) st t q = formatComma cfg st t q"
  "formatQuerySeparator (cfg\<lparr>trailingNewline := b\<rparr>) st t q = formatQuerySeparator cfg st t q"
  by (simp_all add: formatLineComment_def formatBlockComment_def
      formatTopLevelReservedWord_def formatTopLevelReservedWordNoIndent_def
      formatNewlineReservedWord_def formatWithSpaces_def formatWithoutSpaces_def
      formatOpeningParentheses_def formatClosingParentheses_def formatPlaceholder_def
      formatComma_def formatQuerySeparator_def indentComment_def
      showToken_trailingNewline addNewline_trailingNewline cong: if_cong)

lemma formatToken_trailingNewline:
  "formatToken d (cfg\<lparr>trailingNewline := b\<rparr>) toks i tok s = formatToken d cfg toks i tok s"
  by (simp add: formatToken_def rules_trailingNewline cong: if_cong)

lemma forEachToken_trailingNewline:
  "forEachToken d (cfg\<lparr>trailingNewline := b\<rparr>) toks i rest s = forEachToken d cfg toks i rest s"
  by (induction rest arbitrary: i s) (simp_all add: formatToken_trailingNewline split: sum.splits)

lemma Formatter_format_trailingNewline:
  "Formatter_format d (cfg\<lparr>trailingNewline := b\<rparr>) query =
   Formatter_format d (cfg\<lparr>trailingNewline := False\<rparr>) query"
  by (simp add: Formatter_format_def getFormattedQueryFromTokens_def forEachToken_trailingNewline
      trim_snoc_LF Let_def split: sum.splits)


lemma resolveOptions_trailingNewline:
  "resolveOptions (cfg\<lparr>trailingNewline_opt := b\<rparr>) =
     (case resolveOptions cfg of
        (warnings, Inl e) \<Rightarrow> (warnings, Inl e)
      | (warnings, Inr opts) \<Rightarrow> (warnings, Inr (opts\<lparr>trailingNewline := orDefault False b\<rparr>)))"
  by (simp add: resolveOptions_def Let_def split: option.splits sum.splits prod.splits)

lemma format_trailingNewline:
  "format formatters query (cfg\<lparr>trailingNewline_opt := b\<rparr>) =
   format formatters query (cfg\<lparr>trailingNewline_opt := None\<rparr>)"
proof -
  have "format formatters query (cfg\<lparr>trailingNewline_opt := b'\<rparr>) =
     (case resolveOptions cfg of
        (warnings, Inl e) \<Rightarrow> (warnings, Inl e)
      | (warnings, Inr opts) \<Rightarrow>
          (if language opts \<in> set supportedDialects
           then (warnings,
                 Formatter_format (formatters (language opts)) (opts\<lparr>trailingNewline := False\<rparr>) query)
           else (warnings, Inl NotAConstructor)))" for b'
    using Formatter_format_trailingNewline
    by (simp add: format_def resolveOptions_trailingNewline split: prod.splits sum.splits)
  then show ?thesis by simp
qed

text \<open>
  Claim C10. A string returned by \<^verbatim>\<open>Formatter.format\<close>, and so by the public
  \<^verbatim>\<open>format\<close>, never ends with a line feed, and the flag \<^verbatim>\<open>trailingNewline\<close> has no
  effect on the result: the final trim removes the line feed the flag appends.
\<close>

theorem trailingNewline_no_effect:
  "(Formatter_format d opts query = Inr out \<longrightarrow> \<not> endsWith out LF) \<and>
   Formatter_format d (opts\<lparr>trailingNewline := True\<rparr>) query =
     Formatter_format d (opts\<lparr>trailingNewline := False\<rparr>) query \<and>
   (snd (format formatters query cfg) = Inr out' \<longrightarrow> \<not> endsWith out' LF) \<and>
   format formatters query (cfg\<lparr>trailingNewline_opt := Some True\<rparr>) =
     format formatters query (cfg\<lparr>trailingNewline_opt := None\<rparr>)"
proof -
  have "\<not> endsWith x LF" if "Formatter_format d' opts' query = Inr x" for d' opts' x
    using Formatter_format_trim [OF that] trim_not_endsWith_LF by auto
  then show ?thesis
    using format_Inr [of formatters query cfg out'] Formatter_format_trailingNewline
      format_trailingNewline
    by blast
qed

lemma scenario_result:
  "Formatter_format scenarioFormatter (defaultOptions\<lparr>trailingNewline := True\<rparr>) ''SELECT a FROM b'' =
     Inr (''SELECT'' @ [LF] @ ''  a'' @ [LF] @ ''FROM'' @ [LF] @ ''  b'')"
  by code_simp

lemma scenario_format:
  "format (\<lambda>l. scenarioFormatter) ''SELECT a FROM b'' (emptyOptions\<lparr>trailingNewline_opt := Some True\<rparr>) =
     ([], Inr (''SELECT'' @ [LF] @ ''  a'' @ [LF] @ ''FROM'' @ [LF] @ ''  b''))"
  by code_simp


theorem format_trimmed_witness:
  "Formatter_format scenarioFormatter (defaultOptions\<lparr>trailingNewline := True\<rparr>) ''SELECT a FROM b'' =
     Inr (''SELECT'' @ [LF] @ ''  a'' @ [LF] @ ''FROM'' @ [LF] @ ''  b'') \<and>
   snd (format (\<lambda>l. scenarioFormatter) ''SELECT a FROM b''
          (emptyOptions\<lparr>trailingNewline_opt := Some True\<rparr>)) =
     Inr (''SELECT'' @ [LF] @ ''  a'' @ [LF] @ ''FROM'' @ [LF] @ ''  b'') \<and>
   \<not> isWhitespace (hd (''SELECT'' @ [LF] @ ''  a'' @ [LF] @ ''FROM'' @ [LF] @ ''  b'')) \<and>
   \<not> isWhitespace (last (''SELECT'' @ [LF] @ ''  a'' @ [LF] @ ''FROM'' @ [LF] @ ''  b''))"
  using format_trimmed [of scenarioFormatter "defaultOptions\<lparr>trailingNewline := True\<rparr>"
      "''SELECT a FROM b''" "''SELECT'' @ [LF] @ ''  a'' @ [LF] @ ''FROM'' @ [LF] @ ''  b''"
      "\<lambda>l. scenarioFormatter" "emptyOptions\<lparr>trailingNewline_opt := Some True\<rparr>"]
    scenario_result scenario_format
  by simp

theorem trailingNewline_no_effect_witness:
  "Formatter_format scenarioFormatter (defaultOptions\<lparr>trailingNewline := True\<rparr>) ''SELECT a FROM b'' =
     Inr (''SELECT'' @ [LF] @ ''  a'' @ [LF] @ ''FROM'' @ [LF] @ ''  b'') \<and>
   snd (format (\<lambda>l. scenarioFormatter) ''SELECT a FROM b''
          (emptyOptions\<lparr>trailingNewline_opt := Some True\<rparr>)) =
     Inr (''SELECT'' @ [LF] @ ''  a'' @ [LF] @ ''FROM'' @ [LF] @ ''  b'') \<and>
   \<not> endsWith (''SELECT'' @ [LF] @ ''  a'' @ [LF] @ ''FROM'' @ [LF] @ ''  b'') LF"
  using trailingNewline_no_effect [of scenarioFormatter "defaultOptions\<lparr>trailingNewline := True\<rparr>"
      "''SELECT a FROM b''" "''SELECT'' @ [LF] @ ''  a'' @ [LF] @ ''FROM'' @ [LF] @ ''  b''"
      "\<lambda>l. scenarioFormatter" "emptyOptions\<lparr>trailingNewline_opt := Some True\<rparr>"
      "''SELECT'' @ [LF] @ ''  a'' @ [LF] @ ''FROM'' @ [LF] @ ''  b''"]
    scenario_result scenario_format
  by simp

section \<open>Content without whitespace\<close>

lemma stripWhitespace_append:
  "stripWhitespace (a @ b) = stripWhitespace a @ stripWhitespace b"
  by (simp add: stripWhitespace_def)

lemma filter_dropWhile_other:
  assumes "\<And>x. Q x \<Longrightarrow> \<not> P x"
  shows "filter P (dropWhile Q xs) = filter P xs"
  using assms by (induction xs) auto

lemma isWhitespace_SP: "isWhitespace SP"
  by (simp add: isWhitespace_def)

lemma stripWhitespace_trimSpacesEnd: "stripWhitespace (trimSpacesEnd s) = stripWhitespace s"
proof -
  have "filter (\<lambda>c. \<not> isWhitespace c) (dropWhile (\<lambda>c. c = SP) (rev s)) =
        filter (\<lambda>c. \<not> isWhitespace c) (rev s)"
    by (rule filter_dropWhile_other) (simp add: isWhitespace_SP)
  then show ?thesis
    by (simp add: stripWhitespace_def trimSpacesEnd_def rev_filter [symmetric])
qed

lemma stripWhitespace_trimEnd: "stripWhitespace (trimEnd s) = stripWhitespace s"
proof -
  have "filter (\<lambda>c. \<not> isWhitespace c) (dropWhile isWhitespace (rev s)) =
        filter (\<lambda>c. \<not> isWhitespace c) (rev s)"
    by (rule filter_dropWhile_other) simp
  then show ?thesis
    by (simp add: stripWhitespace_def trimEnd_def rev_filter [symmetric])
qed

lemma stripWhitespace_trim: "stripWhitespace (trim s) = stripWhitespace s"
proof -
  have "stripWhitespace (dropWhile isWhitespace x) = stripWhitespace x" for x
    unfolding stripWhitespace_def by (rule filter_dropWhile_other) simp
  then show ?thesis
    by (simp add: trim_def trimStart_def stripWhitespace_trimEnd)
qed

lemma stripWhitespace_blank:
  assumes "\<forall>c\<in>set s. isWhitespace c"
  shows "stripWhitespace s = []"
  using assms by (simp add: stripWhitespace_def)

lemma stripWhitespace_repeat:
  assumes "\<forall>c\<in>set unit. isWhitespace c"
  shows "stripWhitespace (repeat unit n) = []"
  using assms by (intro stripWhitespace_blank) (auto simp: repeat_def)

lemma stripWhitespace_addNewline:
  assumes "\<forall>c\<in>set (indent cfg). isWhitespace c"
  shows "stripWhitespace (addNewline cfg st q) = stripWhitespace q"
  using assms
  by (simp add: addNewline_def Let_def stripWhitespace_append stripWhitespace_trimSpacesEnd
      getIndent_def stripWhitespace_repeat)
    (simp add: stripWhitespace_def isWhitespace_def)

lemma stripWhitespace_equalizeWhitespace:
  "stripWhitespace (equalizeWhitespace s) = stripWhitespace s"
proof (induction s rule: equalizeWhitespace.induct)
  case 1
  then show ?case by simp
next
  case (2 c cs)
  have "filter (\<lambda>c. \<not> isWhitespace c) (dropWhile isWhitespace cs) =
        filter (\<lambda>c. \<not> isWhitespace c) cs"
    by (rule filter_dropWhile_other) simp
  with 2 show ?case
    by (simp add: stripWhitespace_def isWhitespace_SP)
qed

lemma stripWhitespace_replaceLineStarts:
  "stripWhitespace r = [] \<Longrightarrow> stripWhitespace (replaceLineStarts r s) = stripWhitespace s"
proof (induction r s rule: replaceLineStarts.induct)
  case (1 r)
  then show ?case by simp
next
  case (2 r c cs)
  have skip: "stripWhitespace (dropWhile (\<lambda>x. x = SP \<or> x = TAB) cs) = stripWhitespace cs"
    unfolding stripWhitespace_def
    by (rule filter_dropWhile_other) (auto simp: isWhitespace_def)
  show ?case
  proof (cases "c = LF")
    case True
    with 2 have "stripWhitespace (replaceLineStarts r (c # cs)) =
        stripWhitespace r @ stripWhitespace (dropWhile (\<lambda>x. x = SP \<or> x = TAB) cs)"
      by (simp add: stripWhitespace_append)
    also have "\<dots> = stripWhitespace cs"
      using 2 skip by simp
    also have "\<dots> = stripWhitespace (c # cs)"
      using True by (simp add: stripWhitespace_def isWhitespace_def)
    finally show ?thesis .
  next
    case False
    with 2 show ?thesis
      by (simp add: stripWhitespace_def)
  qed
qed


lemma stripWhitespace_indentComment:
  assumes "\<forall>c\<in>set (indent cfg). isWhitespace c"
  shows "stripWhitespace (indentComment cfg st s) = stripWhitespace s"
proof -
  have "stripWhitespace (LF # getIndent (indent cfg) (indentation st) @ [SP]) = []"
    using assms
    by (intro stripWhitespace_blank) (auto simp: getIndent_def repeat_def isWhitespace_def)
  then show ?thesis
    unfolding indentComment_def by (rule stripWhitespace_replaceLineStarts)
qed

lemma stripWhitespace_SP: "stripWhitespace [SP] = []" "stripWhitespace [] = []"
  "stripWhitespace [LF] = []"
  by (simp_all add: stripWhitespace_def isWhitespace_def)

lemma stripWhitespace_repeat_LF: "stripWhitespace (repeat [LF] n) = []"
  by (rule stripWhitespace_repeat) (simp add: isWhitespace_def)

lemmas strip_simps =
  stripWhitespace_append stripWhitespace_trimSpacesEnd stripWhitespace_addNewline
  stripWhitespace_equalizeWhitespace stripWhitespace_indentComment stripWhitespace_SP
  stripWhitespace_repeat_LF

lemma stripWhitespace_formatWithSpaces:
  "stripWhitespace (formatWithSpaces cfg t q p) = stripWhitespace q @ stripWhitespace (showToken cfg t)"
  by (simp add: formatWithSpaces_def Let_def strip_simps)

lemma stripWhitespace_rules:
  assumes "\<forall>c\<in>set (indent cfg). isWhitespace c"
  shows
    "stripWhitespace (formatLineComment cfg st t q) =
       stripWhitespace q @ stripWhitespace (showToken cfg t)"
    "stripWhitespace (formatBlockComment cfg st t q) =
       stripWhitespace q @ stripWhitespace (tvalue t)"
    "stripWhitespace (snd (formatTopLevelReservedWord cfg st t q)) =
       stripWhitespace q @ stripWhitespace (showToken cfg t)"
    "stripWhitespace (snd (formatTopLevelReservedWordNoIndent cfg st t q)) =
       stripWhitespace q @ stripWhitespace (showToken cfg t)"
    "stripWhitespace (formatNewlineReservedWord cfg st toks i t q) =
       stripWhitespace q @ stripWhitespace (showToken cfg t)"
    "stripWhitespace (snd (formatOpeningParentheses cfg st toks i t q)) =
       stripWhitespace q @ stripWhitespace (showToken cfg t)"
    "stripWhitespace (snd (formatClosingParentheses cfg st t q)) =
       stripWhitespace q @ stripWhitespace (showToken cfg t)"
    "stripWhitespace (formatComma cfg st t q) =
       stripWhitespace q @ stripWhitespace (showToken cfg t)"
    "stripWhitespace (formatWithoutSpaces cfg t q) =
       stripWhitespace q @ stripWhitespace (showToken cfg t)"
  using assms
  by (simp_all add: formatLineComment_def formatBlockComment_def formatTopLevelReservedWord_def
      formatTopLevelReservedWordNoIndent_def formatNewlineReservedWord_def
      formatOpeningParentheses_def formatClosingParentheses_def formatComma_def
      formatWithoutSpaces_def stripWhitespace_formatWithSpaces Let_def strip_simps)

lemma formatPlaceholder_no_params:
  assumes "params cfg = None"
  shows "formatPlaceholder cfg st t q = Inr (st, q @ tvalue t @ [SP])"
  using assms by (simp add: formatPlaceholder_def params_get_def)

lemma formatQuerySeparator_returns:
  assumes "0 \<le> linesBetweenQueries cfg"
  shows "\<exists>st'. formatQuerySeparator cfg st t q =
           Inr (st', trimSpacesEnd q @ showToken cfg t @
                     repeat [LF] (nat (if linesBetweenQueries cfg = 0 then 1 else linesBetweenQueries cfg)))"
  using assms by (simp add: formatQuerySeparator_def Let_def)


lemma showToken_verbatim:
  "ttype t = BLOCK_COMMENT \<Longrightarrow> showToken cfg t = tvalue t"
  "ttype t = PLACEHOLDER \<Longrightarrow> showToken cfg t = tvalue t"
  by (simp_all add: showToken_def caseRendered_def)

lemma formatToken_content:
  assumes "params cfg = None" and "\<forall>c\<in>set (indent cfg). isWhitespace c"
    and "0 \<le> linesBetweenQueries cfg"
  shows "\<exists>st' q'. formatToken d cfg toks i tok (st, q) = Inr (st', q') \<and>
           stripWhitespace q' = stripWhitespace q @ stripWhitespace (showToken cfg (tokenOverride d tok))"
proof -
  define t where "t = tokenOverride d tok"
  note rules = stripWhitespace_rules [OF assms(2)]
  consider (lc) "ttype t = LINE_COMMENT" | (bc) "ttype t = BLOCK_COMMENT"
    | (tl) "ttype t = RESERVED_TOP_LEVEL" | (ni) "ttype t = RESERVED_TOP_LEVEL_NO_INDENT"
    | (nl) "ttype t = RESERVED_NEWLINE" | (rs) "ttype t = RESERVED"
    | (op) "ttype t = OPEN_PAREN" | (cp) "ttype t = CLOSE_PAREN" | (ph) "ttype t = PLACEHOLDER"
    | (other) "ttype t \<notin> {LINE_COMMENT, BLOCK_COMMENT, RESERVED_TOP_LEVEL,
         RESERVED_TOP_LEVEL_NO_INDENT, RESERVED_NEWLINE, RESERVED, OPEN_PAREN, CLOSE_PAREN,
         PLACEHOLDER}"
    by blast
  then show ?thesis
  proof cases
    case lc
    then show ?thesis
      by (simp add: formatToken_def t_def [symmetric] rules)
  next
    case bc
    then show ?thesis
      by (simp add: formatToken_def t_def [symmetric] rules showToken_verbatim)
  next
    case tl
    then show ?thesis
      by (simp add: formatToken_def t_def [symmetric] rules latch_def)
  next
    case ni
    then show ?thesis
      by (simp add: formatToken_def t_def [symmetric] rules latch_def)
  next
    case nl
    then show ?thesis
      by (simp add: formatToken_def t_def [symmetric] rules latch_def)
  next
    case rs
    then show ?thesis
      by (simp add: formatToken_def t_def [symmetric] stripWhitespace_formatWithSpaces latch_def)
  next
    case op
    then show ?thesis
      using rules(6) [of st toks i t q]
      by (cases "formatOpeningParentheses cfg st toks i t q")
        (simp add: formatToken_def t_def [symmetric])
  next
    case cp
    then show ?thesis
      using rules(7) [of st t q]
      by (cases "formatClosingParentheses cfg st t q")
        (simp add: formatToken_def t_def [symmetric])
  next
    case ph
    then show ?thesis
      by (simp add: formatToken_def t_def [symmetric] formatPlaceholder_no_params [OF assms(1)]
          showToken_verbatim strip_simps)
  next
    case other
    from formatQuerySeparator_returns [OF assms(3), of st t q]
    obtain st' where sep: "formatQuerySeparator cfg st t q =
           Inr (st', trimSpacesEnd q @ showToken cfg t @
                     repeat [LF] (nat (if linesBetweenQueries cfg = 0 then 1 else linesBetweenQueries cfg)))"
      by blast
    from other show ?thesis
      by (simp add: formatToken_def t_def [symmetric] rules stripWhitespace_formatWithSpaces sep
          strip_simps)
  qed
qed

lemma forEachToken_content:
  assumes "params cfg = None" and "\<forall>c\<in>set (indent cfg). isWhitespace c"
    and "0 \<le> linesBetweenQueries cfg"
  shows "\<exists>st' q'. forEachToken d cfg toks i rest (st, q) = Inr (st', q') \<and>
           stripWhitespace q' =
             stripWhitespace q @
             stripWhitespace (concat (map (\<lambda>tok. showToken cfg (tokenOverride d tok)) rest))"
proof (induction rest arbitrary: i st q)
  case Nil
  then show ?case by (simp add: stripWhitespace_SP)
next
  case (Cons tok rest)
  from formatToken_content [OF assms, of d toks i tok st q]
  obtain st1 q1 where step: "formatToken d cfg toks i tok (st, q) = Inr (st1, q1)"
    and c1: "stripWhitespace q1 = stripWhitespace q @ stripWhitespace (showToken cfg (tokenOverride d tok))"
    by blast
  from Cons.IH [of "Suc i" st1 q1]
  obtain st' q' where run: "forEachToken d cfg toks (Suc i) rest (st1, q1) = Inr (st', q')"
    and c2: "stripWhitespace q' =
             stripWhitespace q1 @
             stripWhitespace (concat (map (\<lambda>tok. showToken cfg (tokenOverride d tok)) rest))"
    by blast
  from step run have "forEachToken d cfg toks i (tok # rest) (st, q) = Inr (st', q')"
    by simp
  moreover from c1 c2 have "stripWhitespace q' =
             stripWhitespace q @
             stripWhitespace (concat (map (\<lambda>tok. showToken cfg (tokenOverride d tok)) (tok # rest)))"
    by (simp add: stripWhitespace_append)
  ultimately show ?case by blast
qed


lemma toUpperChar_toLowerChar: "toUpperChar (toLowerChar c) = toUpperChar c"
  by (auto simp: toUpperChar_def toLowerChar_def lowerLetters_def upperLetters_def)

lemma toUpperChar_idem: "toUpperChar (toUpperChar c) = toUpperChar c"
  by (auto simp: toUpperChar_def lowerLetters_def upperLetters_def)

lemma isWhitespace_toUpperChar: "isWhitespace (toUpperChar c) = isWhitespace c"
  by (auto simp: toUpperChar_def isWhitespace_def lowerLetters_def upperLetters_def)

lemma toUpperCase_showToken: "toUpperCase (showToken cfg t) = toUpperCase (tvalue t)"
  by (simp add: showToken_def toUpperCase_def toLowerCase_def toUpperChar_toLowerChar
      toUpperChar_idem)

lemma toUpperCase_stripWhitespace:
  "toUpperCase (stripWhitespace s) = stripWhitespace (toUpperCase s)"
  by (induction s) (simp_all add: toUpperCase_def stripWhitespace_def isWhitespace_toUpperChar)

lemma toUpperCase_concat: "toUpperCase (concat xs) = concat (map toUpperCase xs)"
  by (induction xs) (simp_all add: toUpperCase_def)


text \<open>
  Claim C1, as amended. For a query that the tokenizer accepts and a configuration with no
  params, an indent unit of whitespace only and a non-negative \<^verbatim>\<open>linesBetweenQueries\<close>,
  \<^verbatim>\<open>Formatter.format\<close> returns, and the result stripped of whitespace is the
  concatenation, stripped of whitespace, of the tokens as \<^verbatim>\<open>show\<close> renders them (reserved
  words and parentheses in the configured letter case, every other token as it stands).
  So when the token stream holds the lexemes of the query and the token override keeps the
  values, the result and the query agree after stripping whitespace up to letter case.
\<close>

theorem content_preserved_up_to_case:
  assumes "tokenizer d query = Inr toks" and "params cfg = None"
    and "\<forall>c\<in>set (indent cfg). isWhitespace c" and "0 \<le> linesBetweenQueries cfg"
  shows "\<exists>out. Formatter_format d cfg query = Inr out \<and>
           stripWhitespace out =
             stripWhitespace (concat (map (\<lambda>tok. showToken cfg (tokenOverride d tok)) toks)) \<and>
           ((\<forall>tok\<in>set toks. tvalue (tokenOverride d tok) = tvalue tok) \<and>
            stripWhitespace query = stripWhitespace (concat (map tvalue toks))
            \<longrightarrow> toUpperCase (stripWhitespace out) = toUpperCase (stripWhitespace query))"
proof -
  let ?shown = "concat (map (\<lambda>tok. showToken cfg (tokenOverride d tok)) toks)"
  from forEachToken_content [OF assms(2-4), of d toks 0 toks initialState "[]"]
  obtain st' q' where run: "forEachToken d cfg toks 0 toks (initialState, []) = Inr (st', q')"
    and content: "stripWhitespace q' = stripWhitespace ?shown"
    by (auto simp: stripWhitespace_SP)
  define out where
    "out = trim (if trailingNewline cfg then trimEnd q' @ [LF] else trimEnd q')"
  from run assms(1) have res: "Formatter_format d cfg query = Inr out"
    by (simp add: Formatter_format_def getFormattedQueryFromTokens_def out_def)
  have strip: "stripWhitespace out = stripWhitespace ?shown"
    using content
    by (simp add: out_def stripWhitespace_trim stripWhitespace_trimEnd stripWhitespace_append
        stripWhitespace_SP)
  have "toUpperCase (stripWhitespace out) = toUpperCase (stripWhitespace query)"
    if ov: "\<forall>tok\<in>set toks. tvalue (tokenOverride d tok) = tvalue tok"
      and inv: "stripWhitespace query = stripWhitespace (concat (map tvalue toks))"
  proof -
    have "toUpperCase ?shown = concat (map (\<lambda>tok. toUpperCase (tvalue (tokenOverride d tok))) toks)"
      by (simp add: toUpperCase_concat comp_def toUpperCase_showToken)
    also have "\<dots> = concat (map (\<lambda>tok. toUpperCase (tvalue tok)) toks)"
      using ov by (simp cong: map_cong)
    also have "\<dots> = toUpperCase (concat (map tvalue toks))"
      by (simp add: toUpperCase_concat comp_def)
    finally have "stripWhitespace (toUpperCase ?shown) =
        stripWhitespace (toUpperCase (concat (map tvalue toks)))"
      by simp
    with strip inv show ?thesis
      by (simp add: toUpperCase_stripWhitespace)
  qed
  with res strip show ?thesis by blast
qed

lemma select_result:
  "Formatter_format scenarioFormatter defaultOptions ''select a'' =
     Inr (''SELECT'' @ [LF] @ ''  a'')"
  by code_simp

text \<open>
  Claim C1, as stated, fails in two ways: a reserved word in lower case comes out in upper
  case with the default options, and an indent unit that is not whitespace is inserted
  into the output.
\<close>

theorem content_counterexample:
  "Formatter_format scenarioFormatter defaultOptions ''select a'' =
     Inr (''SELECT'' @ [LF] @ ''  a'') \<and>
   stripWhitespace (''SELECT'' @ [LF] @ ''  a'') \<noteq> stripWhitespace ''select a'' \<and>
   Formatter_format scenarioFormatter (defaultOptions\<lparr>indent := ''--''\<rparr>) ''SELECT a FROM b'' =
     Inr (''SELECT'' @ [LF] @ ''--a'' @ [LF] @ ''FROM'' @ [LF] @ ''--b'') \<and>
   stripWhitespace (''SELECT'' @ [LF] @ ''--a'' @ [LF] @ ''FROM'' @ [LF] @ ''--b'') \<noteq>
     stripWhitespace ''SELECT a FROM b''"
  by code_simp

theorem content_preserved_up_to_case_witness:
  "Formatter_format scenarioFormatter defaultOptions ''select a'' =
     Inr (''SELECT'' @ [LF] @ ''  a'') \<and>
   stripWhitespace (''SELECT'' @ [LF] @ ''  a'') = ''SELECTa'' \<and>
   toUpperCase (stripWhitespace (''SELECT'' @ [LF] @ ''  a'')) =
     toUpperCase (stripWhitespace ''select a'')"
proof -
  have tk: "tokenizer scenarioFormatter ''select a'' = Inr selectTokens"
    by (simp add: scenarioFormatter_def)
  have np: "params defaultOptions = None"
    by (simp add: defaultOptions_def)
  have ws: "\<forall>c\<in>set (indent defaultOptions). isWhitespace c"
    by (simp add: defaultOptions_def isWhitespace_def)
  have lb: "0 \<le> linesBetweenQueries defaultOptions"
    by (simp add: defaultOptions_def)
  have ov: "\<forall>tok\<in>set selectTokens. tvalue (tokenOverride scenarioFormatter tok) = tvalue tok"
    by (simp add: scenarioFormatter_def)
  have inv: "stripWhitespace ''select a'' = stripWhitespace (concat (map tvalue selectTokens))"
    by code_simp
  have shown: "stripWhitespace (concat (map (\<lambda>tok. showToken defaultOptions
      (tokenOverride scenarioFormatter tok)) selectTokens)) = ''SELECTa''"
    by code_simp
  from content_preserved_up_to_case [OF tk np ws lb] ov inv shown select_result
  show ?thesis
    by auto
qed

end
